theory Spec2Isabelle
  imports Complex_Main "HOL-Library.Multiset" "HOL-Library.Sublist"
begin

section \<open>Numbers and geometry\<close>

text \<open>
  JavaScript numbers are modelled as real numbers: the model is the exact-arithmetic
  reading of the source, without the rounding of IEEE doubles and without NaN and the
  infinities. Timestamps are milliseconds since the epoch; an ISO date string is
  represented by the timestamp it prints.

  What is proved below about distances, durations and metrics is therefore a statement
  about the formulas of the source in exact arithmetic. It carries over to the running
  code where the doubles stay finite and the rounding does not change a comparison; it
  does not carry over where a double computation leaves the domain of a function, as
  \<^verbatim>\<open>Math.sqrt(1 - a)\<close> does in \<^verbatim>\<open>calculateHaversineDistance\<close> on antipodal points, and an
  exact tie between two real distances may be broken by the rounding.
\<close>

text \<open>\<^verbatim>\<open>Math.round\<close>: the nearest integer, halves rounded towards plus infinity.\<close>

definition Math_round :: "real \<Rightarrow> real" where
  "Math_round x = of_int \<lfloor>x + 1 / 2\<rfloor>"

text \<open>\<^verbatim>\<open>Math.max\<close> on two numbers.\<close>

definition Math_max :: "real \<Rightarrow> real \<Rightarrow> real" where
  "Math_max a b = (if a \<le> b then b else a)"

text \<open>\<^verbatim>\<open>Math.atan2(y, x)\<close>: the angle of the point \<open>(x, y)\<close>, in \<open>(-pi, pi]\<close>.\<close>

definition Math_atan2 :: "real \<Rightarrow> real \<Rightarrow> real" where
  "Math_atan2 y x =
     (if 0 < x then arctan (y / x)
      else if x < 0 then (if 0 \<le> y then arctan (y / x) + pi else arctan (y / x) - pi)
      else if 0 < y then pi / 2
      else if y < 0 then - (pi / 2)
      else 0)"

record Stop =
  latitude :: real
  longitude :: real
  address :: string

record Waypoint =
  wp_latitude :: real
  wp_longitude :: real
  wp_address :: string
  estimatedArrival :: real

record OptimizedRoute =
  totalDistance :: real
  totalDuration :: real
  waypoints :: "Waypoint list"
  polyline :: string

definition toRadians :: "real \<Rightarrow> real" where
  "toRadians degrees = degrees * (pi / 180)"

text \<open>
  \<^verbatim>\<open>calculateHaversineDistance\<close>, in metres. The function occurs twice in the source, in
  \<^verbatim>\<open>GoogleMapsService\<close> and in \<^verbatim>\<open>RouteOptimizationService\<close>, with the same body.

  In exact arithmetic the term \<open>a\<close> lies between 0 and 1. The source does not clamp it.
  In doubles it can exceed 1 by a rounding error when the two points are antipodal: for
  \<open>(87.5, 0)\<close> and \<open>(-87.5, -180)\<close> it is \<open>1.0000000000000002\<close>, so \<^verbatim>\<open>Math.sqrt(1 - a)\<close> is NaN
  and the function returns NaN, where the definition below returns half the
  circumference.
\<close>

definition calculateHaversineDistance :: "real \<Rightarrow> real \<Rightarrow> real \<Rightarrow> real \<Rightarrow> real" where
  "calculateHaversineDistance lat1 lon1 lat2 lon2 =
     (let R = 6371000;
          dLat = toRadians (lat2 - lat1);
          dLon = toRadians (lon2 - lon1);
          a = sin (dLat / 2) * sin (dLat / 2) +
              cos (toRadians lat1) * cos (toRadians lat2) *
              sin (dLon / 2) * sin (dLon / 2);
          c = 2 * Math_atan2 (sqrt a) (sqrt (1 - a))
      in R * c)"

text \<open>The distance between two stops, as every call site passes the four coordinates.\<close>

definition stopDistance :: "Stop \<Rightarrow> Stop \<Rightarrow> real" where
  "stopDistance s t =
     calculateHaversineDistance (latitude s) (longitude s) (latitude t) (longitude t)"

section \<open>The fallback sequencer\<close>

text \<open>
  The inner \<^verbatim>\<open>for\<close> loop of \<^verbatim>\<open>optimizeStopOrder\<close>: one pass over the indices of
  \<^verbatim>\<open>remainingStops\<close>, carrying \<^verbatim>\<open>nearestStopIndex\<close> and \<^verbatim>\<open>shortestDistance\<close>.
  \<open>None\<close> stands for the initial \<^verbatim>\<open>Infinity\<close>.
\<close>

definition nearestStep :: "Stop \<Rightarrow> Stop list \<Rightarrow> nat \<Rightarrow> nat \<times> real option \<Rightarrow> nat \<times> real option" where
  "nearestStep currentStop remainingStops i st =
     (let distance = stopDistance currentStop (remainingStops ! i)
      in if (case snd st of None \<Rightarrow> True | Some shortestDistance \<Rightarrow> distance < shortestDistance)
         then (i, Some distance)
         else st)"

definition nearestStopIndex :: "Stop \<Rightarrow> Stop list \<Rightarrow> nat" where
  "nearestStopIndex currentStop remainingStops =
     fst (fold (nearestStep currentStop remainingStops) [0..<length remainingStops] (0, None))"

text \<open>\<^verbatim>\<open>xs.splice(k, 1)\<close>: the list that remains after the element at \<open>k\<close> is taken out.\<close>

definition splice1 :: "nat \<Rightarrow> 'a list \<Rightarrow> 'a list" where
  "splice1 k xs = take k xs @ drop (Suc k) xs"

lemma nearestStep_fold_bound:
  "fst st < n \<Longrightarrow> \<forall>k \<in> set ks. k < n \<Longrightarrow> fst (fold (nearestStep c rs) ks st) < n"
proof (induction ks arbitrary: st)
  case Nil
  then show ?case by simp
next
  case (Cons k ks)
  have "fst (nearestStep c rs k st) < n"
    using Cons.prems by (auto simp: nearestStep_def Let_def split: option.splits)
  then show ?case
    using Cons.IH [of "nearestStep c rs k st"] Cons.prems by simp
qed

lemma nearestStopIndex_less:
  "remainingStops \<noteq> [] \<Longrightarrow> nearestStopIndex c remainingStops < length remainingStops"
  unfolding nearestStopIndex_def
  by (rule nearestStep_fold_bound) auto

text \<open>
  The \<^verbatim>\<open>while\<close> loop of \<^verbatim>\<open>optimizeStopOrder\<close>: move to the nearest remaining stop until
  none remains.
\<close>

function nearestNeighbourLoop :: "Stop \<Rightarrow> Stop list \<Rightarrow> Stop list \<Rightarrow> Stop list" where
  "nearestNeighbourLoop currentStop remainingStops optimizedStops =
     (if remainingStops = [] then optimizedStops
      else let k = nearestStopIndex currentStop remainingStops;
               next = remainingStops ! k
           in nearestNeighbourLoop next (splice1 k remainingStops) (optimizedStops @ [next]))"
  by pat_completeness auto
termination
proof (relation "measure (\<lambda>(c, rs, os). length rs)", goal_cases)
  case 1
  show ?case by simp
next
  case (2 currentStop remainingStops optimizedStops k nextStop)
  then have "k < length remainingStops" by (simp add: nearestStopIndex_less)
  then show ?case by (simp add: splice1_def)
qed

declare nearestNeighbourLoop.simps [simp del]

definition optimizeStopOrder :: "Stop list \<Rightarrow> Stop list" where
  "optimizeStopOrder stops =
     (if length stops \<le> 2 then stops
      else nearestNeighbourLoop (hd stops) (tl stops) [hd stops])"

text \<open>
  The body of the \<^verbatim>\<open>for\<close> loop of \<^verbatim>\<open>getMockOptimizedRoute\<close> at index \<open>i\<close>, on the
  accumulators \<^verbatim>\<open>totalDistance\<close>, \<^verbatim>\<open>totalDuration\<close> (minutes) and \<^verbatim>\<open>waypoints\<close>,
  here \<open>accDistance\<close>, \<open>accDuration\<close> and \<open>accWaypoints\<close>.
  The inner test repeats the outer one, as in the source.
\<close>

definition mockStep ::
  "real \<Rightarrow> Stop list \<Rightarrow> nat \<Rightarrow> real \<times> real \<times> Waypoint list \<Rightarrow> real \<times> real \<times> Waypoint list" where
  "mockStep currentTime optimizedStops i acc =
     (case acc of (accDistance, accDuration, accWaypoints) \<Rightarrow>
        let stop = optimizedStops ! i;
            (accDistance', accDuration') =
              (if int i < int (length optimizedStops) - 1 then
                 let nextStop = optimizedStops ! (i + 1);
                     distance = stopDistance stop nextStop;
                     travelTimeMinutes = Math_round ((distance / 1000) * 2);
                     d = accDuration + travelTimeMinutes
                 in (accDistance + distance,
                     if int i < int (length optimizedStops) - 1 then d + 5 else d)
               else (accDistance, accDuration));
            eta = currentTime + accDuration' * 60000
        in (accDistance', accDuration',
            accWaypoints @ [\<lparr>wp_latitude = latitude stop, wp_longitude = longitude stop,
                           wp_address = address stop, estimatedArrival = eta\<rparr>]))"

text \<open>
  \<^verbatim>\<open>getMockOptimizedRoute\<close>; the first argument is the clock reading (\<^verbatim>\<open>Date.now()\<close>,
  \<^verbatim>\<open>new Date()\<close>). The source prints every estimated arrival with \<^verbatim>\<open>toISOString()\<close>, which
  throws \<^verbatim>\<open>RangeError\<close> on an invalid date: that happens when a leg distance is NaN, and
  is not a branch of this definition, whose numbers are real.
\<close>

definition getMockOptimizedRoute :: "real \<Rightarrow> Stop list \<Rightarrow> OptimizedRoute" where
  "getMockOptimizedRoute now stops =
     (if length stops < 2 then
        \<lparr>totalDistance = 0, totalDuration = 0,
         waypoints = map (\<lambda>stop. \<lparr>wp_latitude = latitude stop, wp_longitude = longitude stop,
                                   wp_address = address stop, estimatedArrival = now\<rparr>) stops,
         polyline = []\<rparr>
      else
        let optimizedStops = optimizeStopOrder stops;
            (accDistance, accDuration, accWaypoints) =
               fold (mockStep now optimizedStops) [0..<length optimizedStops] (0, 0, [])
        in \<lparr>totalDistance = Math_round accDistance, totalDuration = accDuration * 60,
            waypoints = accWaypoints, polyline = []\<rparr>)"

text \<open>The stop a waypoint was built from.\<close>

definition waypointStop :: "Waypoint \<Rightarrow> Stop" where
  "waypointStop w = \<lparr>latitude = wp_latitude w, longitude = wp_longitude w, address = wp_address w\<rparr>"

section \<open>The metrics calculator\<close>

record OriginalRouteMetrics =
  orig_totalDistance :: real
  orig_totalDuration :: real

text \<open>The body of the \<^verbatim>\<open>for\<close> loop of \<^verbatim>\<open>calculateOriginalRouteMetrics\<close> at index \<open>i\<close>.\<close>

definition originalStep :: "Stop list \<Rightarrow> nat \<Rightarrow> real \<times> real \<Rightarrow> real \<times> real" where
  "originalStep stops i acc =
     (case acc of (accDistance, accDuration) \<Rightarrow>
        let currentStop = stops ! i;
            nextStop = stops ! (i + 1);
            distance = stopDistance currentStop nextStop;
            travelTimeMinutes = Math_round ((distance / 1000) * 2);
            d = accDuration + travelTimeMinutes
        in (accDistance + distance,
            if int i < int (length stops) - 2 then d + 5 else d))"

definition calculateOriginalRouteMetrics :: "Stop list \<Rightarrow> OriginalRouteMetrics" where
  "calculateOriginalRouteMetrics stops =
     (if length stops < 2 then \<lparr>orig_totalDistance = 0, orig_totalDuration = 0\<rparr>
      else
        let (accDistance, accDuration) =
               fold (originalStep stops) [0..<length stops - 1] (0, 0)
        in \<lparr>orig_totalDistance = Math_round accDistance,
            orig_totalDuration = accDuration * 60\<rparr>)"

record OptimizationEfficiency =
  timeImprovement :: real
  distanceImprovement :: real
  fuelEfficiency :: real

record OptimizationMetrics =
  timeSaved :: real
  distanceSaved :: real
  fuelSaved :: real
  co2Saved :: real
  costSaved :: real
  optimizationEfficiency :: OptimizationEfficiency

text \<open>
  \<^verbatim>\<open>calculateOptimizationMetrics\<close>. Every returned field is clamped with \<^verbatim>\<open>Math.max(0, ...)\<close>.
  In the source \<^verbatim>\<open>Math.round(NaN)\<close> and \<^verbatim>\<open>Math.max(0, NaN)\<close> are NaN, so a NaN baseline passes
  the clamp; the definition below, on real numbers, has no such case.
\<close>

definition calculateOptimizationMetrics :: "OptimizedRoute \<Rightarrow> Stop list \<Rightarrow> OptimizationMetrics" where
  "calculateOptimizationMetrics optimizedRoute originalStops =
     (let originalRouteMetrics = calculateOriginalRouteMetrics originalStops;
          timeSavedSeconds =
            Math_round (orig_totalDuration originalRouteMetrics - totalDuration optimizedRoute);
          distanceSavedMeters =
            orig_totalDistance originalRouteMetrics - totalDistance optimizedRoute;
          distanceSavedKm = distanceSavedMeters / 1000;
          totalDistanceKm = totalDistance optimizedRoute / 1000;
          avgFuelConsumption = (if totalDistanceKm < 50 then 10 else 7);
          fuelSavedLiters = (distanceSavedKm * avgFuelConsumption) / 100;
          co2SavedKg = fuelSavedLiters * 2.3;
          fuelCostPerLiter = 1.50;
          driverCostPerHour = 25;
          fuelCostSaved = fuelSavedLiters * fuelCostPerLiter;
          driverTimeSavedHours = timeSavedSeconds / 3600;
          driverCostSaved = driverTimeSavedHours * driverCostPerHour;
          totalCostSaved = fuelCostSaved + driverCostSaved;
          timeImprovementPercent =
            (if orig_totalDuration originalRouteMetrics > 0
             then ((orig_totalDuration originalRouteMetrics - totalDuration optimizedRoute)
                     / orig_totalDuration originalRouteMetrics) * 100
             else 0);
          distanceImprovementPercent =
            (if orig_totalDistance originalRouteMetrics > 0
             then ((orig_totalDistance originalRouteMetrics - totalDistance optimizedRoute)
                     / orig_totalDistance originalRouteMetrics) * 100
             else 0)
      in \<lparr>timeSaved = Math_max 0 timeSavedSeconds,
          distanceSaved = Math_max 0 (Math_round (distanceSavedKm * 1000) / 1000),
          fuelSaved = Math_max 0 (Math_round (fuelSavedLiters * 1000) / 1000),
          co2Saved = Math_max 0 (Math_round (co2SavedKg * 1000) / 1000),
          costSaved = Math_max 0 (Math_round (totalCostSaved * 100) / 100),
          optimizationEfficiency =
            \<lparr>timeImprovement = Math_max 0 (Math_round timeImprovementPercent),
             distanceImprovement = Math_max 0 (Math_round distanceImprovementPercent),
             fuelEfficiency = Math_max 0 (Math_round distanceImprovementPercent)\<rparr>\<rparr>)"

section \<open>Persistent store, message bus and rooms\<close>

datatype RouteOptimizationStatus = PENDING | PROCESSING | COMPLETED | FAILED

datatype RouteUpdateReason = TRAFFIC_CHANGE | DRIVER_REQUEST | EMERGENCY

datatype OptimizeFor = ForTime | ForDistance | ForFuel

text \<open>
  Exceptions are values. \<open>ValidationError\<close> is what the validation pipe of the controller
  throws, \<open>NotFoundException\<close> what the service throws on a missing record,
  \<open>ProviderError\<close> what the routing provider path throws, \<open>PersistenceError\<close> what a
  Prisma call throws, \<open>PlainError\<close> any other \<^verbatim>\<open>Error\<close>.
\<close>

datatype error =
    ValidationError
  | NotFoundException string
  | ProviderError string
  | PersistenceError string
  | PlainError string

record Preferences =
  avoidTolls :: bool
  avoidHighways :: bool
  optimizeFor :: OptimizeFor

record OptimizeRouteDto =
  dto_vehicleId :: string
  dto_stops :: "Stop list"
  dto_preferences :: Preferences

record RouteOptimizationRequest =
  req_id :: string
  req_vehicleId :: string
  req_userId :: string
  req_stops :: "Stop list"
  req_preferences :: Preferences
  req_status :: RouteOptimizationStatus
  req_completedAt :: "real option"

record OptimizedRouteRow =
  route_id :: string
  route_requestId :: string
  route_vehicleId :: string
  route_totalDistance :: real
  route_totalDuration :: real
  route_waypoints :: "Waypoint list"
  route_optimizationMetrics :: OptimizationMetrics
  route_polyline :: string

record RouteUpdate =
  update_routeId :: string
  update_vehicleId :: string
  update_updateReason :: RouteUpdateReason
  update_newWaypoints :: "Waypoint list"

record BusEvent =
  ev_topic :: string
  ev_eventType :: string
  ev_subject :: string

record RoomPush =
  push_room :: string
  push_event :: string
  push_status :: string

text \<open>
  The state the service works on: the three tables, the events accepted by the message
  bus, and the messages pushed to rooms. \<open>statusWrites\<close> records, in order, every status
  value written to the requests table, so that the persisted status sequence of a
  request can be read back.
\<close>

record World =
  requests :: "RouteOptimizationRequest list"
  optimizedRoutes :: "OptimizedRouteRow list"
  routeUpdates :: "RouteUpdate list"
  statusWrites :: "(string \<times> RouteOptimizationStatus) list"
  busEvents :: "BusEvent list"
  roomPushes :: "RoomPush list"

text \<open>
  What the collaborators do during one call: the configured API key, the provider path
  of \<^verbatim>\<open>GoogleMapsService.optimizeRoute\<close> (the HTTP request and the translation of its
  answer), the id the store gives a new route, and for each awaited store call and for
  the bus whether it throws.
\<close>

record Env =
  configuredApiKey :: string
  provider :: "Stop list \<Rightarrow> Preferences \<Rightarrow> error + OptimizedRoute"
  newRouteId :: string
  requestCreateFault :: "error option"
  routeCreateFault :: "error option"
  completedUpdateFault :: "error option"
  failedUpdateFault :: "error option"
  updateCreateFault :: "error option"
  busFault :: bool

text \<open>\<^verbatim>\<open>prisma.routeOptimizationRequest.create\<close>: the id is the primary key.\<close>

definition requestCreate ::
  "error option \<Rightarrow> RouteOptimizationRequest \<Rightarrow> World \<Rightarrow> error + World" where
  "requestCreate fault r w =
     (case fault of
        Some e \<Rightarrow> Inl e
      | None \<Rightarrow>
          if \<exists>q \<in> set (requests w). req_id q = req_id r
          then Inl (PersistenceError ''unique constraint'')
          else Inr (w\<lparr>requests := requests w @ [r],
                      statusWrites := statusWrites w @ [(req_id r, req_status r)]\<rparr>))"

text \<open>\<^verbatim>\<open>prisma.routeOptimizationRequest.update\<close> of status and \<^verbatim>\<open>completedAt\<close>.\<close>

definition requestUpdate ::
  "error option \<Rightarrow> string \<Rightarrow> RouteOptimizationStatus \<Rightarrow> real \<Rightarrow> World \<Rightarrow> error + World" where
  "requestUpdate fault rid st now w =
     (case fault of
        Some e \<Rightarrow> Inl e
      | None \<Rightarrow>
          if \<not> (\<exists>q \<in> set (requests w). req_id q = rid)
          then Inl (PersistenceError ''record not found'')
          else Inr (w\<lparr>requests :=
                        map (\<lambda>q. if req_id q = rid
                                  then q\<lparr>req_status := st, req_completedAt := Some now\<rparr>
                                  else q) (requests w),
                      statusWrites := statusWrites w @ [(rid, st)]\<rparr>))"

text \<open>\<^verbatim>\<open>prisma.optimizedRoute.create\<close>: \<^verbatim>\<open>requestId\<close> is a foreign key.\<close>

definition routeCreate :: "error option \<Rightarrow> OptimizedRouteRow \<Rightarrow> World \<Rightarrow> error + World" where
  "routeCreate fault r w =
     (case fault of
        Some e \<Rightarrow> Inl e
      | None \<Rightarrow>
          if \<not> (\<exists>q \<in> set (requests w). req_id q = route_requestId r)
          then Inl (PersistenceError ''foreign key constraint'')
          else Inr (w\<lparr>optimizedRoutes := optimizedRoutes w @ [r]\<rparr>))"

text \<open>\<^verbatim>\<open>prisma.routeUpdate.create\<close>.\<close>

definition updateCreate :: "error option \<Rightarrow> RouteUpdate \<Rightarrow> World \<Rightarrow> error + World" where
  "updateCreate fault u w =
     (case fault of
        Some e \<Rightarrow> Inl e
      | None \<Rightarrow> Inr (w\<lparr>routeUpdates := routeUpdates w @ [u]\<rparr>))"

text \<open>
  The three \<^verbatim>\<open>publish...Event\<close> methods: the event reaches the bus, or the failure is
  logged and nothing else happens.
\<close>

definition publishEvent :: "bool \<Rightarrow> string \<Rightarrow> string \<Rightarrow> string \<Rightarrow> World \<Rightarrow> World" where
  "publishEvent fault topic eventType subject w =
     (if fault then w
      else w\<lparr>busEvents := busEvents w @
                [\<lparr>ev_topic = topic, ev_eventType = eventType, ev_subject = subject\<rparr>]\<rparr>)"

text \<open>The \<^verbatim>\<open>broadcast...\<close> methods of the gateway: a message to the room of the id.\<close>

definition broadcast :: "string \<Rightarrow> string \<Rightarrow> string \<Rightarrow> World \<Rightarrow> World" where
  "broadcast ident event status w =
     w\<lparr>roomPushes := roomPushes w @
          [\<lparr>push_room = ''route:'' @ ident, push_event = event, push_status = status\<rparr>]\<rparr>"

definition broadcastRouteOptimizationRequested :: "string \<Rightarrow> World \<Rightarrow> World" where
  "broadcastRouteOptimizationRequested requestId =
     broadcast requestId ''route_optimization_requested'' ''PROCESSING''"

definition broadcastRouteOptimized :: "string \<Rightarrow> World \<Rightarrow> World" where
  "broadcastRouteOptimized requestId = broadcast requestId ''route_optimized'' ''COMPLETED''"

definition broadcastRouteUpdateRequested :: "string \<Rightarrow> World \<Rightarrow> World" where
  "broadcastRouteUpdateRequested routeId = broadcast routeId ''route_update_requested'' []"

definition broadcastRouteOptimizationFailed :: "string \<Rightarrow> World \<Rightarrow> World" where
  "broadcastRouteOptimizationFailed requestId =
     broadcast requestId ''route_optimization_failed'' ''FAILED''"

section \<open>The request lifecycle\<close>

text \<open>The constructor of \<^verbatim>\<open>GoogleMapsService\<close>: a missing or placeholder key forces mock mode.\<close>

definition apiKey :: "Env \<Rightarrow> string" where
  "apiKey env =
     (if configuredApiKey env = [] \<or> configuredApiKey env = ''your_google_maps_api_key_here''
      then [] else configuredApiKey env)"

text \<open>\<^verbatim>\<open>GoogleMapsService.optimizeRoute\<close>.\<close>

definition GoogleMapsService_optimizeRoute ::
  "Env \<Rightarrow> real \<Rightarrow> Stop list \<Rightarrow> Preferences \<Rightarrow> error + OptimizedRoute" where
  "GoogleMapsService_optimizeRoute env now stops preferences =
     (if apiKey env = [] then Inr (getMockOptimizedRoute now stops)
      else provider env stops preferences)"

record RouteSummary =
  sum_totalDistance :: real
  sum_totalDuration :: real
  sum_waypoints :: "Waypoint list"

record OptimizedRouteResponse =
  resp_requestId :: string
  resp_optimizedRoute :: RouteSummary
  resp_optimizationMetrics :: OptimizationMetrics

text \<open>
  The \<^verbatim>\<open>try\<close> block of \<^verbatim>\<open>RouteOptimizationService.optimizeRoute\<close>. An error leaves with the
  state reached so far. \<open>requestId\<close> is the fresh \<^verbatim>\<open>uuidv4()\<close>, \<open>now\<close> the clock.
\<close>

definition optimizeRoute_try ::
  "Env \<Rightarrow> string \<Rightarrow> real \<Rightarrow> OptimizeRouteDto \<Rightarrow> string \<Rightarrow> World
     \<Rightarrow> (error + OptimizedRouteResponse) \<times> World" where
  "optimizeRoute_try env requestId now optimizeRouteDto userId w =
     (case requestCreate (requestCreateFault env)
             \<lparr>req_id = requestId, req_vehicleId = dto_vehicleId optimizeRouteDto,
              req_userId = userId, req_stops = dto_stops optimizeRouteDto,
              req_preferences = dto_preferences optimizeRouteDto,
              req_status = PROCESSING, req_completedAt = None\<rparr> w of
        Inl e \<Rightarrow> (Inl e, w)
      | Inr w1 \<Rightarrow>
          let w2 = publishEvent (busFault env) ''route-optimization-events''
                     ''ROUTE_OPTIMIZATION_REQUESTED'' requestId w1;
              w3 = broadcastRouteOptimizationRequested requestId w2
          in case GoogleMapsService_optimizeRoute env now (dto_stops optimizeRouteDto)
                    (dto_preferences optimizeRouteDto) of
               Inl e \<Rightarrow> (Inl e, w3)
             | Inr optimizedRoute \<Rightarrow>
                 let optimizationMetrics =
                       calculateOptimizationMetrics optimizedRoute (dto_stops optimizeRouteDto)
                 in case routeCreate (routeCreateFault env)
                           \<lparr>route_id = newRouteId env, route_requestId = requestId,
                            route_vehicleId = dto_vehicleId optimizeRouteDto,
                            route_totalDistance = totalDistance optimizedRoute,
                            route_totalDuration = totalDuration optimizedRoute,
                            route_waypoints = waypoints optimizedRoute,
                            route_optimizationMetrics = optimizationMetrics,
                            route_polyline = polyline optimizedRoute\<rparr> w3 of
                      Inl e \<Rightarrow> (Inl e, w3)
                    | Inr w4 \<Rightarrow>
                        (case requestUpdate (completedUpdateFault env) requestId COMPLETED now w4 of
                           Inl e \<Rightarrow> (Inl e, w4)
                         | Inr w5 \<Rightarrow>
                             let w6 = publishEvent (busFault env) ''route-optimization-events''
                                        ''ROUTE_OPTIMIZED'' requestId w5;
                                 w7 = broadcastRouteOptimized requestId w6
                             in (Inr \<lparr>resp_requestId = requestId,
                                      resp_optimizedRoute =
                                        \<lparr>sum_totalDistance = totalDistance optimizedRoute,
                                         sum_totalDuration = totalDuration optimizedRoute,
                                         sum_waypoints = waypoints optimizedRoute\<rparr>,
                                      resp_optimizationMetrics = optimizationMetrics\<rparr>, w7)))"

text \<open>
  \<^verbatim>\<open>RouteOptimizationService.optimizeRoute\<close>: the \<^verbatim>\<open>try\<close> block, and the \<^verbatim>\<open>catch\<close> block
  that awaits the update to \<open>FAILED\<close>, pushes the failure and throws the caught error
  again. An error of the awaited update leaves the \<^verbatim>\<open>catch\<close> block at once.
\<close>

definition optimizeRoute ::
  "Env \<Rightarrow> string \<Rightarrow> real \<Rightarrow> OptimizeRouteDto \<Rightarrow> string \<Rightarrow> World
     \<Rightarrow> (error + OptimizedRouteResponse) \<times> World" where
  "optimizeRoute env requestId now optimizeRouteDto userId w =
     (case optimizeRoute_try env requestId now optimizeRouteDto userId w of
        (Inr response, w') \<Rightarrow> (Inr response, w')
      | (Inl error, w') \<Rightarrow>
          (case requestUpdate (failedUpdateFault env) requestId FAILED now w' of
             Inl e \<Rightarrow> (Inl e, w')
           | Inr w'' \<Rightarrow> (Inl error, broadcastRouteOptimizationFailed requestId w'')))"

text \<open>
  Modelled from the spec: \<^verbatim>\<open>optimizeRouteSchema\<close>, the schema the controller hands to its
  validation pipe, is defined in the package \<^verbatim>\<open>@yatms/common\<close>, outside this repository.
  The specification says that a request holds at least one stop and that an empty stop
  list is invalid input.
\<close>

definition optimizeRouteSchema :: "OptimizeRouteDto \<Rightarrow> bool" where
  "optimizeRouteSchema body \<longleftrightarrow> dto_stops body \<noteq> []"

text \<open>
  \<^verbatim>\<open>RouteOptimizationController.optimizeRoute\<close>: the validation pipe runs on the body
  before the handler; the handler tests \<^verbatim>\<open>!userId\<close>, which rejects a missing user id and
  the empty string, and calls the service. The schema is a parameter. The guards of the controller, which run before
  the pipe, are taken to have let the request pass.
\<close>

definition controller_optimizeRoute ::
  "(OptimizeRouteDto \<Rightarrow> bool) \<Rightarrow> Env \<Rightarrow> string \<Rightarrow> real \<Rightarrow> OptimizeRouteDto \<Rightarrow> string option \<Rightarrow> World
     \<Rightarrow> (error + OptimizedRouteResponse) \<times> World" where
  "controller_optimizeRoute schema env requestId now body user w =
     (if \<not> schema body then (Inl ValidationError, w)
      else case user of
             None \<Rightarrow> (Inl (PlainError ''User ID not found in request''), w)
           | Some userId \<Rightarrow>
               if userId = [] then (Inl (PlainError ''User ID not found in request''), w)
               else optimizeRoute env requestId now body userId w)"

record RouteUpdateDto =
  dto_reason :: RouteUpdateReason
  dto_currentLocation :: "real \<times> real"

record RouteUpdateResult =
  res_routeId :: string
  res_vehicleId :: string
  res_updateReason :: RouteUpdateReason
  res_currentLocation :: "real \<times> real"
  res_updatedAt :: real

text \<open>The \<^verbatim>\<open>where\<close> clause of the lookup in \<^verbatim>\<open>updateRoute\<close>: route id and vehicle id.\<close>

definition matchesRoute :: "string \<Rightarrow> string \<Rightarrow> OptimizedRouteRow \<Rightarrow> bool" where
  "matchesRoute routeId vehicleId r \<longleftrightarrow> route_id r = routeId \<and> route_vehicleId r = vehicleId"

text \<open>\<^verbatim>\<open>RouteOptimizationService.updateRoute\<close>.\<close>

definition updateRoute ::
  "Env \<Rightarrow> real \<Rightarrow> string \<Rightarrow> RouteUpdateDto \<Rightarrow> string \<Rightarrow> World
     \<Rightarrow> (error + RouteUpdateResult) \<times> World" where
  "updateRoute env now routeId updateDto vehicleId w =
     (case find (matchesRoute routeId vehicleId) (optimizedRoutes w) of
        None \<Rightarrow> (Inl (NotFoundException (''Route '' @ routeId @ '' not found for vehicle '' @ vehicleId)), w)
      | Some route \<Rightarrow>
          (case updateCreate (updateCreateFault env)
                  \<lparr>update_routeId = routeId, update_vehicleId = vehicleId,
                   update_updateReason = dto_reason updateDto,
                   update_newWaypoints = route_waypoints route\<rparr> w of
             Inl e \<Rightarrow> (Inl e, w)
           | Inr w1 \<Rightarrow>
               let w2 = publishEvent (busFault env) ''route-update-events''
                          ''ROUTE_UPDATE_REQUESTED'' routeId w1;
                   w3 = broadcastRouteUpdateRequested routeId w2
               in (Inr \<lparr>res_routeId = routeId, res_vehicleId = vehicleId,
                        res_updateReason = dto_reason updateDto,
                        res_currentLocation = dto_currentLocation updateDto,
                        res_updatedAt = now\<rparr>, w3)))"

section \<open>The real-time gateway\<close>

text \<open>\<^verbatim>\<open>s.split(c)\<close> for a one-character separator: never empty, \<^verbatim>\<open>''.split(';')\<close> is \<^verbatim>\<open>['']\<close>.\<close>

fun splitOn :: "char \<Rightarrow> string \<Rightarrow> string list" where
  "splitOn c [] = [[]]"
| "splitOn c (x # xs) =
     (if x = c then [] # splitOn c xs
      else case splitOn c xs of
             [] \<Rightarrow> [[x]]
           | y # ys \<Rightarrow> (x # y) # ys)"

definition isWhitespace :: "char \<Rightarrow> bool" where
  "isWhitespace ch \<longleftrightarrow>
     ch \<in> set [CHR '' '', CHR 0x09, CHR 0x0A, CHR 0x0B, CHR 0x0C, CHR 0x0D, CHR 0xA0]"

text \<open>
  \<^verbatim>\<open>s.trim()\<close> on strings of 8-bit characters: the white space and line terminators of
  ECMAScript below U+0100 are the six ASCII ones and the no-break space U+00A0.
\<close>

definition trim :: "string \<Rightarrow> string" where
  "trim s = rev (dropWhile isWhitespace (rev (dropWhile isWhitespace s)))"

text \<open>\<^verbatim>\<open>s.startsWith(p)\<close>.\<close>

definition startsWith :: "string \<Rightarrow> string \<Rightarrow> bool" where
  "startsWith s p \<longleftrightarrow> take (length p) s = p"

text \<open>\<^verbatim>\<open>s.replace(p, '')\<close> for a string pattern: the first occurrence is removed.\<close>

fun removeFirst :: "string \<Rightarrow> string \<Rightarrow> string" where
  "removeFirst p [] = []"
| "removeFirst p (x # xs) =
     (if take (length p) (x # xs) = p then drop (length p) (x # xs)
      else x # removeFirst p xs)"

text \<open>
  A value used as a condition: \<^verbatim>\<open>null\<close>, \<^verbatim>\<open>undefined\<close> (\<open>None\<close>) and the empty string count
  as false.
\<close>

definition truthy :: "string option \<Rightarrow> bool" where
  "truthy v \<longleftrightarrow> (case v of None \<Rightarrow> False | Some s \<Rightarrow> s \<noteq> [])"

record Handshake =
  hs_cookie :: "string option"
  hs_authToken :: "string option"
  hs_authorization :: "string option"

text \<open>
  The first part of \<^verbatim>\<open>handleConnection\<close>: the token from the cookie \<^verbatim>\<open>access_token\<close>, or
  else from the handshake auth field, or else from the Authorization header.
\<close>

definition cookieToken :: "Handshake \<Rightarrow> string option" where
  "cookieToken hs =
     (if truthy (hs_cookie hs) then
        (case find (\<lambda>cookie. startsWith (trim cookie) ''access_token='')
                (splitOn CHR '';'' (the (hs_cookie hs))) of
           None \<Rightarrow> None
         | Some accessTokenCookie \<Rightarrow>
             (case splitOn CHR ''='' accessTokenCookie of
                _ # t # _ \<Rightarrow> Some t
              | _ \<Rightarrow> None))
      else None)"

definition extractToken :: "Handshake \<Rightarrow> string option" where
  "extractToken hs =
     (let token = cookieToken hs
      in if \<not> truthy token then
           (if truthy (hs_authToken hs) then hs_authToken hs
            else map_option (removeFirst ''Bearer '') (hs_authorization hs))
         else token)"

record CustomJWTPayload =
  jwt_userId :: string
  jwt_email :: string
  jwt_roles :: "string list"

record Client =
  client_id :: string
  client_handshake :: Handshake

text \<open>
  The gateway: the map \<^verbatim>\<open>connectedClients\<close> (its keys, in insertion order), the identity
  bound to each socket (\<^verbatim>\<open>client.data\<close>), room membership, the sockets that were
  disconnected and the messages emitted to single sockets.
\<close>

record Gateway =
  connectedClients :: "string list"
  clientData :: "string \<rightharpoonup> CustomJWTPayload"
  rooms :: "(string \<times> string) list"
  disconnected :: "string list"
  emitted :: "(string \<times> string) list"

definition disconnect :: "string \<Rightarrow> Gateway \<Rightarrow> Gateway" where
  "disconnect cid g = g\<lparr>disconnected := disconnected g @ [cid]\<rparr>"

text \<open>
  \<^verbatim>\<open>handleConnection\<close>. \<open>verify\<close> is \<^verbatim>\<open>jwt.verify\<close> with algorithm RS256 on the token, the
  public key and the issuer: the payload, or \<open>None\<close> where it throws. A throw inside the
  \<^verbatim>\<open>try\<close> block ends in the \<^verbatim>\<open>catch\<close> block, which disconnects the socket.
\<close>

definition handleConnection ::
  "string \<Rightarrow> string \<Rightarrow> (string \<Rightarrow> string \<Rightarrow> string \<Rightarrow> CustomJWTPayload option) \<Rightarrow> Client \<Rightarrow> Gateway \<Rightarrow> Gateway" where
  "handleConnection publicKey issuer verify client g =
     (let token = extractToken (client_handshake client)
      in if \<not> truthy token then disconnect (client_id client) g
         else if publicKey = [] then disconnect (client_id client) g
         else case verify (the token) publicKey issuer of
                None \<Rightarrow> disconnect (client_id client) g
              | Some payload \<Rightarrow>
                  g\<lparr>clientData := (clientData g)(client_id client \<mapsto> payload),
                    connectedClients :=
                      (if client_id client \<in> set (connectedClients g) then connectedClients g
                       else connectedClients g @ [client_id client]),
                    rooms := rooms g @ [(client_id client, ''user:'' @ jwt_userId payload)],
                    emitted := emitted g @ [(client_id client, ''connected'')]\<rparr>)"

section \<open>Observations on the state\<close>

text \<open>The status values persisted for a request, in the order they were written.\<close>

definition statusSequence :: "string \<Rightarrow> World \<Rightarrow> RouteOptimizationStatus list" where
  "statusSequence requestId w = map snd (filter (\<lambda>p. fst p = requestId) (statusWrites w))"

text \<open>The optimized routes stored for a request.\<close>

definition routesOf :: "string \<Rightarrow> World \<Rightarrow> OptimizedRouteRow list" where
  "routesOf requestId w = filter (\<lambda>r. route_requestId r = requestId) (optimizedRoutes w)"

text \<open>A request with this id is in the requests table.\<close>

definition stored :: "string \<Rightarrow> World \<Rightarrow> bool" where
  "stored requestId w \<longleftrightarrow> (\<exists>q \<in> set (requests w). req_id q = requestId)"

text \<open>The id is fresh, as a new \<^verbatim>\<open>uuidv4()\<close> is: nothing in the state refers to it.\<close>

definition unusedId :: "string \<Rightarrow> World \<Rightarrow> bool" where
  "unusedId requestId w \<longleftrightarrow>
     \<not> stored requestId w \<and> statusSequence requestId w = [] \<and> routesOf requestId w = []"

section \<open>Concrete inputs\<close>

definition env0 :: Env where
  "env0 = \<lparr>configuredApiKey = [], provider = (\<lambda>stops preferences. Inl (ProviderError ''unreachable'')),
           newRouteId = ''route-1'', requestCreateFault = None, routeCreateFault = None,
           completedUpdateFault = None, failedUpdateFault = None, updateCreateFault = None,
           busFault = False\<rparr>"

definition world0 :: World where
  "world0 = \<lparr>requests = [], optimizedRoutes = [], routeUpdates = [], statusWrites = [],
             busEvents = [], roomPushes = []\<rparr>"

definition metrics0 :: OptimizationMetrics where
  "metrics0 = \<lparr>timeSaved = 0, distanceSaved = 0, fuelSaved = 0, co2Saved = 0, costSaved = 0,
     optimizationEfficiency = \<lparr>timeImprovement = 0, distanceImprovement = 0, fuelEfficiency = 0\<rparr>\<rparr>"

definition route1 :: OptimizedRouteRow where
  "route1 = \<lparr>route_id = ''route-1'', route_requestId = ''req-1'', route_vehicleId = ''truck-7'',
     route_totalDistance = 0, route_totalDuration = 0,
     route_waypoints = [\<lparr>wp_latitude = 1, wp_longitude = 2, wp_address = ''Depot'', estimatedArrival = 5\<rparr>],
     route_optimizationMetrics = metrics0, route_polyline = []\<rparr>"

definition updateDto0 :: RouteUpdateDto where
  "updateDto0 = \<lparr>dto_reason = EMERGENCY, dto_currentLocation = (1, 2)\<rparr>"

definition stopA :: Stop where
  "stopA = \<lparr>latitude = 0, longitude = 0, address = ''A''\<rparr>"

definition prefs0 :: Preferences where
  "prefs0 = \<lparr>avoidTolls = False, avoidHighways = False, optimizeFor = ForTime\<rparr>"

definition dto0 :: OptimizeRouteDto where
  "dto0 = \<lparr>dto_vehicleId = ''truck-7'', dto_stops = [stopA], dto_preferences = prefs0\<rparr>"


definition envP :: Env where
  "envP = env0\<lparr>configuredApiKey := ''AIza-key''\<rparr>"

definition envPF :: Env where
  "envPF = envP\<lparr>failedUpdateFault := Some (PersistenceError ''connection lost'')\<rparr>"

definition request1 :: RouteOptimizationRequest where
  "request1 = \<lparr>req_id = ''req-1'', req_vehicleId = ''truck-7'', req_userId = ''user-1'',
      req_stops = [stopA], req_preferences = prefs0, req_status = PROCESSING,
      req_completedAt = None\<rparr>"

definition processing1 :: World where
  "processing1 = \<lparr>requests = [request1], optimizedRoutes = [], routeUpdates = [],
      statusWrites = [(''req-1'', PROCESSING)],
      busEvents = [\<lparr>ev_topic = ''route-optimization-events'',
                    ev_eventType = ''ROUTE_OPTIMIZATION_REQUESTED'', ev_subject = ''req-1''\<rparr>],
      roomPushes = [\<lparr>push_room = ''route:req-1'', push_event = ''route_optimization_requested'',
                     push_status = ''PROCESSING''\<rparr>]\<rparr>"

definition verify0 :: "string \<Rightarrow> string \<Rightarrow> string \<Rightarrow> CustomJWTPayload option" where
  "verify0 token key iss =
     (if token = ''good'' \<and> key = ''PEM'' \<and> iss = ''yatms-user-service-dev''
      then Some \<lparr>jwt_userId = ''u1'', jwt_email = ''u1@example.org'', jwt_roles = [''driver'']\<rparr>
      else None)"

definition gateway0 :: Gateway where
  "gateway0 = \<lparr>connectedClients = [], clientData = Map.empty, rooms = [], disconnected = [], emitted = []\<rparr>"

definition noToken :: Handshake where
  "noToken = \<lparr>hs_cookie = None, hs_authToken = None, hs_authorization = None\<rparr>"

section \<open>The greedy rule in the words of the specification\<close>

text \<open>
  Among the unvisited stops, the one at index \<open>k\<close> has minimum distance to the current
  stop, and it is the first such stop: every earlier one is strictly farther.
\<close>

definition nearestFirst :: "Stop \<Rightarrow> Stop list \<Rightarrow> nat \<Rightarrow> bool" where
  "nearestFirst current unvisited k \<longleftrightarrow>
     k < length unvisited \<and>
     (\<forall>j < length unvisited. stopDistance current (unvisited ! k) \<le> stopDistance current (unvisited ! j)) \<and>
     (\<forall>j < k. stopDistance current (unvisited ! k) < stopDistance current (unvisited ! j))"

text \<open>
  The order in which the unvisited stops are visited from the current stop: repeatedly the
  nearest unvisited stop, first minimum on ties, until none is left.
\<close>

inductive greedyOrder :: "Stop \<Rightarrow> Stop list \<Rightarrow> Stop list \<Rightarrow> bool" where
  finished: "greedyOrder current [] []"
| visit: "nearestFirst current unvisited k \<Longrightarrow>
          greedyOrder (unvisited ! k) (take k unvisited @ drop (Suc k) unvisited) order \<Longrightarrow>
          greedyOrder current unvisited (unvisited ! k # order)"

code_pred greedyOrder .

text \<open>Invariant of the inner loop of \<^verbatim>\<open>optimizeStopOrder\<close> after the indices below \<open>m\<close>.\<close>

definition scanned :: "Stop \<Rightarrow> Stop list \<Rightarrow> nat \<Rightarrow> nat \<times> real option \<Rightarrow> bool" where
  "scanned c rs m st \<longleftrightarrow>
     fst st < m \<and> snd st = Some (stopDistance c (rs ! fst st)) \<and>
     (\<forall>j < m. stopDistance c (rs ! fst st) \<le> stopDistance c (rs ! j)) \<and>
     (\<forall>j < fst st. stopDistance c (rs ! fst st) < stopDistance c (rs ! j))"

text \<open>The two stops of the worked example, and a third one.\<close>

definition exampleA :: Stop where
  "exampleA = \<lparr>latitude = 40.7128, longitude = -74.0060, address = ''A''\<rparr>"

definition exampleB :: Stop where
  "exampleB = \<lparr>latitude = 40.7589, longitude = -73.9851, address = ''B''\<rparr>"

definition exampleC :: Stop where
  "exampleC = \<lparr>latitude = 40.7306, longitude = -73.9866, address = ''C''\<rparr>"

section \<open>Properties of the metrics calculator\<close>

lemma Math_max_nonneg: "0 \<le> Math_max 0 x"
  by (simp add: Math_max_def)

lemma Math_round_int: "Math_round x \<in> \<int>"
  by (simp add: Math_round_def)

lemma Math_max_int: "x \<in> \<int> \<Longrightarrow> Math_max 0 x \<in> \<int>"
  by (simp add: Math_max_def)

text \<open>
  In exact arithmetic, for every optimized route and every original stop list, every
  field the metrics calculator returns is non-negative: \<open>timeSaved\<close>, \<open>distanceSaved\<close>,
  \<open>fuelSaved\<close>, \<open>co2Saved\<close>, \<open>costSaved\<close> and the three improvement percentages. Each
  percentage is an integer, the rounded ratio clamped at zero, and it is zero when the
  baseline duration, respectively the baseline distance, is zero; the fuel efficiency
  percentage is the distance percentage.

  This is the behaviour the clamps of the source are written for. It is not a property
  of the running code on every input: when the baseline contains an antipodal leg whose
  haversine distance is NaN in doubles, the baseline totals are NaN and the five saved
  quantities are NaN, which is not a non-negative number.
\<close>

lemma metrics_nonnegative:
  fixes optimizedRoute :: OptimizedRoute and originalStops :: "Stop list"
  defines "m \<equiv> calculateOptimizationMetrics optimizedRoute originalStops"
  defines "b \<equiv> calculateOriginalRouteMetrics originalStops"
  shows "0 \<le> timeSaved m \<and> 0 \<le> distanceSaved m \<and> 0 \<le> fuelSaved m \<and> 0 \<le> co2Saved m \<and>
         0 \<le> costSaved m \<and>
         0 \<le> timeImprovement (optimizationEfficiency m) \<and>
         0 \<le> distanceImprovement (optimizationEfficiency m) \<and>
         0 \<le> fuelEfficiency (optimizationEfficiency m) \<and>
         timeImprovement (optimizationEfficiency m) \<in> \<int> \<and>
         distanceImprovement (optimizationEfficiency m) \<in> \<int> \<and>
         fuelEfficiency (optimizationEfficiency m) \<in> \<int> \<and>
         timeImprovement (optimizationEfficiency m) =
           (if 0 < orig_totalDuration b
            then Math_max 0 (Math_round ((orig_totalDuration b - totalDuration optimizedRoute)
                                          / orig_totalDuration b * 100))
            else 0) \<and>
         distanceImprovement (optimizationEfficiency m) =
           (if 0 < orig_totalDistance b
            then Math_max 0 (Math_round ((orig_totalDistance b - totalDistance optimizedRoute)
                                          / orig_totalDistance b * 100))
            else 0) \<and>
         fuelEfficiency (optimizationEfficiency m) = distanceImprovement (optimizationEfficiency m) \<and>
         (orig_totalDuration b = 0 \<longrightarrow> timeImprovement (optimizationEfficiency m) = 0) \<and>
         (orig_totalDistance b = 0 \<longrightarrow> distanceImprovement (optimizationEfficiency m) = 0 \<and>
            fuelEfficiency (optimizationEfficiency m) = 0)"
  unfolding m_def b_def calculateOptimizationMetrics_def Let_def
  by (simp add: Math_max_nonneg Math_round_int Math_max_int)
     (simp add: Math_max_def Math_round_def)

lemma metrics_nonnegative_witness:
  "orig_totalDuration (calculateOriginalRouteMetrics []) = 0 \<and>
   orig_totalDistance (calculateOriginalRouteMetrics []) = 0 \<and>
   timeImprovement (optimizationEfficiency (calculateOptimizationMetrics
      \<lparr>totalDistance = 1200, totalDuration = 600, waypoints = [], polyline = []\<rparr> [])) = 0 \<and>
   distanceImprovement (optimizationEfficiency (calculateOptimizationMetrics
      \<lparr>totalDistance = 1200, totalDuration = 600, waypoints = [], polyline = []\<rparr> [])) = 0 \<and>
   0 \<le> timeSaved (calculateOptimizationMetrics
      \<lparr>totalDistance = 1200, totalDuration = 600, waypoints = [], polyline = []\<rparr> [])"
  using metrics_nonnegative [of "\<lparr>totalDistance = 1200, totalDuration = 600, waypoints = [], polyline = []\<rparr>" "[]"]
  by (simp add: calculateOriginalRouteMetrics_def)

section \<open>Properties of route updates\<close>

text \<open>
  Claim C8. \<open>updateRoute\<close> on a route id and vehicle id that match no stored optimized
  route raises \<open>NotFoundException\<close> and leaves the whole state as it was: no route
  update record, no bus event, no room push. When a route matches and the store accepts
  the new record, the appended route update carries the waypoints of the matched route
  unchanged, and the stored routes are not touched.
\<close>

theorem updateRoute_recorded:
  "(\<not> (\<exists>r \<in> set (optimizedRoutes w). matchesRoute routeId vehicleId r) \<longrightarrow>
      (\<exists>msg. updateRoute env now routeId updateDto vehicleId w = (Inl (NotFoundException msg), w))) \<and>
   (\<forall>route. find (matchesRoute routeId vehicleId) (optimizedRoutes w) = Some route \<and>
        updateCreateFault env = None \<longrightarrow>
      routeUpdates (snd (updateRoute env now routeId updateDto vehicleId w)) =
        routeUpdates w @ [\<lparr>update_routeId = routeId, update_vehicleId = vehicleId,
                            update_updateReason = dto_reason updateDto,
                            update_newWaypoints = route_waypoints route\<rparr>] \<and>
      optimizedRoutes (snd (updateRoute env now routeId updateDto vehicleId w)) = optimizedRoutes w \<and>
      \<not> isl (fst (updateRoute env now routeId updateDto vehicleId w)))"
proof (intro conjI impI allI)
  assume "\<not> (\<exists>r \<in> set (optimizedRoutes w). matchesRoute routeId vehicleId r)"
  then have "find (matchesRoute routeId vehicleId) (optimizedRoutes w) = None"
    by (simp add: find_None_iff)
  then show "\<exists>msg. updateRoute env now routeId updateDto vehicleId w = (Inl (NotFoundException msg), w)"
    by (simp add: updateRoute_def)
next
  fix route
  assume a: "find (matchesRoute routeId vehicleId) (optimizedRoutes w) = Some route \<and>
        updateCreateFault env = None"
  show "routeUpdates (snd (updateRoute env now routeId updateDto vehicleId w)) =
        routeUpdates w @ [\<lparr>update_routeId = routeId, update_vehicleId = vehicleId,
                            update_updateReason = dto_reason updateDto,
                            update_newWaypoints = route_waypoints route\<rparr>]"
    using a by (simp add: updateRoute_def updateCreate_def Let_def publishEvent_def
        broadcastRouteUpdateRequested_def broadcast_def)
  show "optimizedRoutes (snd (updateRoute env now routeId updateDto vehicleId w)) = optimizedRoutes w"
    using a by (simp add: updateRoute_def updateCreate_def Let_def publishEvent_def
        broadcastRouteUpdateRequested_def broadcast_def)
  show "\<not> isl (fst (updateRoute env now routeId updateDto vehicleId w))"
    using a by (simp add: updateRoute_def updateCreate_def Let_def)
qed

theorem updateRoute_recorded_witness:
  "(\<exists>msg. updateRoute env0 0 ''route-1'' updateDto0 ''truck-9'' (world0\<lparr>optimizedRoutes := [route1]\<rparr>)
      = (Inl (NotFoundException msg), world0\<lparr>optimizedRoutes := [route1]\<rparr>)) \<and>
   routeUpdates (snd (updateRoute env0 0 ''route-1'' updateDto0 ''truck-7'' (world0\<lparr>optimizedRoutes := [route1]\<rparr>)))
     = [\<lparr>update_routeId = ''route-1'', update_vehicleId = ''truck-7'',
         update_updateReason = EMERGENCY, update_newWaypoints = route_waypoints route1\<rparr>]"
proof -
  have n: "\<not> (\<exists>r \<in> set (optimizedRoutes (world0\<lparr>optimizedRoutes := [route1]\<rparr>)). matchesRoute ''route-1'' ''truck-9'' r)"
    by (simp add: matchesRoute_def route1_def)
  have y: "find (matchesRoute ''route-1'' ''truck-7'') (optimizedRoutes (world0\<lparr>optimizedRoutes := [route1]\<rparr>)) = Some route1
     \<and> updateCreateFault env0 = None"
    by (simp add: matchesRoute_def route1_def env0_def)
  show ?thesis
    using updateRoute_recorded [of "world0\<lparr>optimizedRoutes := [route1]\<rparr>" "''route-1''" "''truck-9''" env0 0 updateDto0] n
          updateRoute_recorded [of "world0\<lparr>optimizedRoutes := [route1]\<rparr>" "''route-1''" "''truck-7''" env0 0 updateDto0] y
    by (simp add: world0_def updateDto0_def)
qed

section \<open>Properties of the request lifecycle\<close>

lemma publishEvent_obs [simp]:
  "statusSequence rid (publishEvent f t e s w) = statusSequence rid w"
  "routesOf rid (publishEvent f t e s w) = routesOf rid w"
  "stored rid (publishEvent f t e s w) = stored rid w"
  by (simp_all add: publishEvent_def statusSequence_def routesOf_def stored_def)

lemma broadcast_obs [simp]:
  "statusSequence rid (broadcast i e s w) = statusSequence rid w"
  "routesOf rid (broadcast i e s w) = routesOf rid w"
  "stored rid (broadcast i e s w) = stored rid w"
  by (simp_all add: broadcast_def statusSequence_def routesOf_def stored_def)

lemma requestCreate_Inr:
  assumes "requestCreate f r w = Inr w1"
  shows "f = None"
    and "w1 = w\<lparr>requests := requests w @ [r],
                 statusWrites := statusWrites w @ [(req_id r, req_status r)]\<rparr>"
proof -
  show f: "f = None" using assms by (cases f) (simp_all add: requestCreate_def)
  show "w1 = w\<lparr>requests := requests w @ [r],
                 statusWrites := statusWrites w @ [(req_id r, req_status r)]\<rparr>"
    using assms unfolding f requestCreate_def by (simp split: if_splits)
qed

lemma requestCreate_obs:
  assumes "requestCreate f r w = Inr w1"
  shows "f = None \<and> statusSequence (req_id r) w1 = statusSequence (req_id r) w @ [req_status r] \<and>
         routesOf rid w1 = routesOf rid w \<and> stored (req_id r) w1 \<and>
         busEvents w1 = busEvents w \<and> roomPushes w1 = roomPushes w"
  unfolding requestCreate_Inr(2) [OF assms]
  using requestCreate_Inr(1) [OF assms]
  by (simp add: statusSequence_def routesOf_def stored_def)

lemma requestCreate_Inl:
  assumes "requestCreate f r w = Inl e" and "\<not> stored (req_id r) w"
  shows "f = Some e"
  using assms by (cases f) (simp_all add: requestCreate_def stored_def split: if_splits)

lemma requestCreate_None:
  assumes "\<not> stored (req_id r) w"
  shows "\<exists>w1. requestCreate None r w = Inr w1"
  using assms by (simp add: requestCreate_def stored_def)

lemma stored_map:
  "(\<And>q. req_id (g q) = req_id q) \<Longrightarrow>
   (\<exists>q \<in> set (map g xs). req_id q = rid) = (\<exists>q \<in> set xs. req_id q = rid)"
  by (induction xs) auto

lemma upd_one:
  "req_id (if req_id q = rid then q\<lparr>req_status := st, req_completedAt := c\<rparr> else q) = rid
   \<Longrightarrow> req_status (if req_id q = rid then q\<lparr>req_status := st, req_completedAt := c\<rparr> else q) = st \<and>
       req_completedAt (if req_id q = rid then q\<lparr>req_status := st, req_completedAt := c\<rparr> else q) = c"
  by (cases "req_id q = rid") simp_all

lemma map_status_written:
  "\<forall>q \<in> set (map (\<lambda>q. if req_id q = rid then q\<lparr>req_status := st, req_completedAt := c\<rparr> else q) xs).
      req_id q = rid \<longrightarrow> req_status q = st \<and> req_completedAt q = c"
  unfolding set_map ball_simps using upd_one by blast

lemma requestUpdate_Inr:
  assumes "requestUpdate f rid st now w = Inr w1"
  shows "f = None" and "stored rid w"
    and "w1 = w\<lparr>requests :=
        map (\<lambda>q. if req_id q = rid then q\<lparr>req_status := st, req_completedAt := Some now\<rparr> else q)
          (requests w),
        statusWrites := statusWrites w @ [(rid, st)]\<rparr>"
proof -
  show f: "f = None" using assms by (cases f) (simp_all add: requestUpdate_def)
  show s: "stored rid w" using assms unfolding f requestUpdate_def stored_def
    by (simp split: if_splits)
  show "w1 = w\<lparr>requests :=
        map (\<lambda>q. if req_id q = rid then q\<lparr>req_status := st, req_completedAt := Some now\<rparr> else q)
          (requests w),
        statusWrites := statusWrites w @ [(rid, st)]\<rparr>"
    using assms unfolding f requestUpdate_def by (simp split: if_splits)
qed

lemma requestUpdate_obs:
  assumes "requestUpdate f rid st now w = Inr w1"
  shows "f = None \<and> statusSequence rid w1 = statusSequence rid w @ [st] \<and>
         routesOf rid w1 = routesOf rid w \<and> stored rid w1 \<and>
         (\<forall>q \<in> set (requests w1). req_id q = rid \<longrightarrow> req_status q = st \<and> req_completedAt q = Some now) \<and>
         busEvents w1 = busEvents w \<and> roomPushes w1 = roomPushes w"
proof -
  note r = requestUpdate_Inr [OF assms]
  have "stored rid w1"
    using r(2) unfolding stored_def r(3) by (simp add: stored_map del: set_map)
  moreover have "statusSequence rid w1 = statusSequence rid w @ [st]"
    unfolding r(3) by (simp add: statusSequence_def)
  moreover have "routesOf rid w1 = routesOf rid w"
    unfolding r(3) by (simp add: routesOf_def)
  moreover have rq: "requests w1 =
      map (\<lambda>q. if req_id q = rid then q\<lparr>req_status := st, req_completedAt := Some now\<rparr> else q)
        (requests w)"
    by (simp add: r(3))
  have "\<forall>q \<in> set (requests w1). req_id q = rid \<longrightarrow> req_status q = st \<and> req_completedAt q = Some now"
    unfolding rq by (rule map_status_written)
  moreover have "busEvents w1 = busEvents w \<and> roomPushes w1 = roomPushes w"
    unfolding r(3) by simp
  ultimately show ?thesis using r(1) by simp
qed

lemma requestUpdate_Inl:
  assumes "requestUpdate f rid st now w = Inl e" and "stored rid w"
  shows "f = Some e"
  using assms by (cases f) (simp_all add: requestUpdate_def stored_def split: if_splits)

lemma requestUpdate_fault [simp]: "requestUpdate (Some e) rid st now w = Inl e"
  by (simp add: requestUpdate_def)

lemma requestUpdate_None:
  assumes "stored rid w"
  shows "\<exists>w1. requestUpdate None rid st now w = Inr w1"
  using assms by (simp add: requestUpdate_def stored_def)


lemma routeCreate_Inr:
  assumes "routeCreate f r w = Inr w1"
  shows "f = None" and "w1 = w\<lparr>optimizedRoutes := optimizedRoutes w @ [r]\<rparr>"
proof -
  show f: "f = None" using assms by (cases f) (simp_all add: routeCreate_def)
  show "w1 = w\<lparr>optimizedRoutes := optimizedRoutes w @ [r]\<rparr>"
    using assms unfolding f routeCreate_def by (simp split: if_splits)
qed

lemma routeCreate_obs:
  assumes "routeCreate f r w = Inr w1"
  shows "f = None \<and> statusSequence rid w1 = statusSequence rid w \<and>
         routesOf (route_requestId r) w1 = routesOf (route_requestId r) w @ [r] \<and>
         stored rid w1 = stored rid w"
  unfolding routeCreate_Inr(2) [OF assms]
  using routeCreate_Inr(1) [OF assms]
  by (simp add: statusSequence_def routesOf_def stored_def)

lemma routeCreate_Inl:
  assumes "routeCreate f r w = Inl e" and "stored (route_requestId r) w"
  shows "f = Some e"
  using assms by (cases f) (simp_all add: routeCreate_def stored_def split: if_splits)

text \<open>The ways the try block can end, for an unused request id.\<close>

lemma optimizeRoute_try_outcomes:
  assumes fresh: "unusedId requestId w"
  obtains
    (create_failed) e where
      "optimizeRoute_try env requestId now dto userId w = (Inl e, w)"
      "requestCreateFault env = Some e"
  | (no_route) e w3 where
      "optimizeRoute_try env requestId now dto userId w = (Inl e, w3)"
      "requestCreateFault env = None" "stored requestId w3"
      "statusSequence requestId w3 = [PROCESSING]" "routesOf requestId w3 = []"
      "GoogleMapsService_optimizeRoute env now (dto_stops dto) (dto_preferences dto) = Inl e
       \<or> routeCreateFault env = Some e"
  | (not_completed) e w4 where
      "optimizeRoute_try env requestId now dto userId w = (Inl e, w4)"
      "requestCreateFault env = None" "stored requestId w4"
      "statusSequence requestId w4 = [PROCESSING]" "length (routesOf requestId w4) = 1"
      "completedUpdateFault env = Some e"
  | (completed) response w7 where
      "optimizeRoute_try env requestId now dto userId w = (Inr response, w7)"
      "requestCreateFault env = None" "completedUpdateFault env = None"
      "statusSequence requestId w7 = [PROCESSING, COMPLETED]" "length (routesOf requestId w7) = 1"
proof -
  let ?r = "\<lparr>req_id = requestId, req_vehicleId = dto_vehicleId dto,
              req_userId = userId, req_stops = dto_stops dto,
              req_preferences = dto_preferences dto,
              req_status = PROCESSING, req_completedAt = None\<rparr>"
  from fresh have ns: "\<not> stored requestId w" and s0: "statusSequence requestId w = []"
    and r0: "routesOf requestId w = []" by (simp_all add: unusedId_def)
  show thesis
  proof (cases "requestCreate (requestCreateFault env) ?r w")
    case (Inl e)
    then have f: "requestCreateFault env = Some e" using requestCreate_Inl [of _ ?r w e] ns by simp
    have t: "optimizeRoute_try env requestId now dto userId w = (Inl e, w)"
      using Inl by (simp add: optimizeRoute_try_def)
    show thesis by (rule create_failed [OF t f])
  next
    case (Inr w1)
    from requestCreate_obs [OF Inr, of requestId]
    have c: "requestCreateFault env = None" and s1: "statusSequence requestId w1 = [PROCESSING]"
      and r1: "routesOf requestId w1 = []" and st1: "stored requestId w1"
      using s0 r0 by simp_all
    define w3 where "w3 = broadcastRouteOptimizationRequested requestId
       (publishEvent (busFault env) ''route-optimization-events'' ''ROUTE_OPTIMIZATION_REQUESTED'' requestId w1)"
    have s3: "statusSequence requestId w3 = [PROCESSING]" and r3: "routesOf requestId w3 = []"
      and st3: "stored requestId w3"
      using s1 r1 st1 by (simp_all add: w3_def broadcastRouteOptimizationRequested_def)
    show thesis
    proof (cases "GoogleMapsService_optimizeRoute env now (dto_stops dto) (dto_preferences dto)")
      case (Inl e)
      have t: "optimizeRoute_try env requestId now dto userId w = (Inl e, w3)"
        using Inr Inl by (simp add: optimizeRoute_try_def w3_def Let_def)
      show thesis by (rule no_route [OF t c st3 s3 r3]) (simp add: Inl)
    next
      case route: (Inr optimizedRoute)
      let ?row = "\<lparr>route_id = newRouteId env, route_requestId = requestId,
                      route_vehicleId = dto_vehicleId dto,
                      route_totalDistance = totalDistance optimizedRoute,
                      route_totalDuration = totalDuration optimizedRoute,
                      route_waypoints = waypoints optimizedRoute,
                      route_optimizationMetrics =
                        calculateOptimizationMetrics optimizedRoute (dto_stops dto),
                      route_polyline = polyline optimizedRoute\<rparr>"
      show thesis
      proof (cases "routeCreate (routeCreateFault env) ?row w3")
        case (Inl e)
        then have f: "routeCreateFault env = Some e" using routeCreate_Inl [of _ ?row w3 e] st3 by simp
        have t: "optimizeRoute_try env requestId now dto userId w = (Inl e, w3)"
          using Inr route Inl by (simp add: optimizeRoute_try_def w3_def Let_def)
        show thesis by (rule no_route [OF t c st3 s3 r3]) (simp add: f)
      next
        case w4: (Inr w4)
        from routeCreate_obs [OF w4, of requestId]
        have s4: "statusSequence requestId w4 = [PROCESSING]"
          and r4: "length (routesOf requestId w4) = 1" and st4: "stored requestId w4"
          using s3 r3 st3 by simp_all
        show thesis
        proof (cases "requestUpdate (completedUpdateFault env) requestId COMPLETED now w4")
          case (Inl e)
          then have f: "completedUpdateFault env = Some e"
            using requestUpdate_Inl [of _ requestId COMPLETED now w4 e] st4 by simp
          have t: "optimizeRoute_try env requestId now dto userId w = (Inl e, w4)"
            using Inr route w4 Inl by (simp add: optimizeRoute_try_def w3_def Let_def)
          show thesis by (rule not_completed [OF t c st4 s4 r4 f])
        next
          case w5: (Inr w5)
          from requestUpdate_obs [OF w5]
          have f5: "completedUpdateFault env = None"
            and s5: "statusSequence requestId w5 = [PROCESSING, COMPLETED]"
            and r5: "length (routesOf requestId w5) = 1"
            using s4 r4 by simp_all
          define w7 where "w7 = broadcastRouteOptimized requestId
             (publishEvent (busFault env) ''route-optimization-events'' ''ROUTE_OPTIMIZED'' requestId w5)"
          have s7: "statusSequence requestId w7 = [PROCESSING, COMPLETED]"
            and r7: "length (routesOf requestId w7) = 1"
            using s5 r5 by (simp_all add: w7_def broadcastRouteOptimized_def)
          have "\<exists>response. optimizeRoute_try env requestId now dto userId w = (Inr response, w7)"
            using Inr route w4 w5 by (simp add: optimizeRoute_try_def w3_def w7_def Let_def)
          then obtain response where
            t: "optimizeRoute_try env requestId now dto userId w = (Inr response, w7)" ..
          show thesis by (rule completed [OF t c f5 s7 r7])
        qed
      qed
    qed
  qed
qed

text \<open>The catch block, on a request that is stored.\<close>

lemma optimizeRoute_catch:
  assumes t: "optimizeRoute_try env requestId now dto userId w = (Inl err, w1)"
  shows "optimizeRoute env requestId now dto userId w =
           (case requestUpdate (failedUpdateFault env) requestId FAILED now w1 of
              Inl e \<Rightarrow> (Inl e, w1)
            | Inr w2 \<Rightarrow> (Inl err, broadcastRouteOptimizationFailed requestId w2))"
  using t by (simp add: optimizeRoute_def)


lemma unusedId_world0: "unusedId rid world0"
  by (simp add: unusedId_def stored_def statusSequence_def routesOf_def world0_def)




text \<open>
  Claim C4 fails on the code. When the request has been created and the try block then
  raises an error (from sequencing, from storing the route, or from the update to
  \<open>COMPLETED\<close>), the catch block does what the claim says as long as the update to \<open>FAILED\<close>
  succeeds: the request is \<open>FAILED\<close> with \<open>completedAt\<close> set, the failure is pushed to the
  room of the request, no bus event is published, and the original error is raised
  again. The update to \<open>FAILED\<close> is awaited without protection, though: when it throws,
  the catch block is left there, before the push and before \<^verbatim>\<open>throw error\<close>, so the error
  of the update replaces the original error for the caller, whatever it is, and the
  state stays as the try block left it, with no room push and the request still
  \<open>PROCESSING\<close>. The claim says the original error is raised again in that case too.
\<close>

theorem failure_handling:
  fixes env :: Env and requestId userId :: string and now :: real and dto :: OptimizeRouteDto
    and w :: World
  assumes fresh: "unusedId requestId w"
    and created: "requestCreateFault env = None"
    and raised: "optimizeRoute_try env requestId now dto userId w = (Inl err, w1)"
  shows "(failedUpdateFault env = None \<longrightarrow>
           (\<exists>w2. optimizeRoute env requestId now dto userId w = (Inl err, w2) \<and>
                 stored requestId w2 \<and>
                 (\<forall>q \<in> set (requests w2). req_id q = requestId \<longrightarrow>
                     req_status q = FAILED \<and> req_completedAt q = Some now) \<and>
                 roomPushes w2 = roomPushes w1 @
                   [\<lparr>push_room = ''route:'' @ requestId,
                     push_event = ''route_optimization_failed'', push_status = ''FAILED''\<rparr>] \<and>
                 busEvents w2 = busEvents w1)) \<and>
         (\<forall>e. failedUpdateFault env = Some e \<longrightarrow>
            optimizeRoute env requestId now dto userId w = (Inl e, w1))"
proof -
  have st: "stored requestId w1"
    using fresh
  proof (cases rule: optimizeRoute_try_outcomes [where env = env and now = now and dto = dto and userId = userId])
    case (create_failed e)
    then show ?thesis using created by simp
  next
    case (no_route e w3)
    then show ?thesis using raised by simp
  next
    case (not_completed e w4)
    then show ?thesis using raised by simp
  next
    case (completed response w7)
    then show ?thesis using raised by simp
  qed
  show ?thesis
  proof (intro conjI impI allI)
    assume n: "failedUpdateFault env = None"
    obtain w2 where u: "requestUpdate None requestId FAILED now w1 = Inr w2"
      using requestUpdate_None [OF st] by blast
    have "optimizeRoute env requestId now dto userId w =
            (Inl err, broadcastRouteOptimizationFailed requestId w2)"
      unfolding optimizeRoute_catch [OF raised] n u by simp
    moreover note requestUpdate_obs [OF u]
    ultimately show "\<exists>w2. optimizeRoute env requestId now dto userId w = (Inl err, w2) \<and>
                 stored requestId w2 \<and>
                 (\<forall>q \<in> set (requests w2). req_id q = requestId \<longrightarrow>
                     req_status q = FAILED \<and> req_completedAt q = Some now) \<and>
                 roomPushes w2 = roomPushes w1 @
                   [\<lparr>push_room = ''route:'' @ requestId,
                     push_event = ''route_optimization_failed'', push_status = ''FAILED''\<rparr>] \<and>
                 busEvents w2 = busEvents w1"
      by (simp add: broadcastRouteOptimizationFailed_def broadcast_def stored_def)
  next
    fix e assume "failedUpdateFault env = Some e"
    then show "optimizeRoute env requestId now dto userId w = (Inl e, w1)"
      unfolding optimizeRoute_catch [OF raised] by simp
  qed
qed

lemma try_envP:
  "optimizeRoute_try envP ''req-1'' 7 dto0 ''user-1'' world0
     = (Inl (ProviderError ''unreachable''), processing1)"
  by (simp add: optimizeRoute_try_def requestCreate_def envP_def env0_def world0_def dto0_def
        GoogleMapsService_optimizeRoute_def apiKey_def publishEvent_def
        broadcastRouteOptimizationRequested_def broadcast_def Let_def processing1_def request1_def)

lemma try_envPF:
  "optimizeRoute_try envPF ''req-1'' 7 dto0 ''user-1'' world0
     = (Inl (ProviderError ''unreachable''), processing1)"
  by (simp add: optimizeRoute_try_def requestCreate_def envPF_def envP_def env0_def world0_def dto0_def
        GoogleMapsService_optimizeRoute_def apiKey_def publishEvent_def
        broadcastRouteOptimizationRequested_def broadcast_def Let_def processing1_def request1_def)

theorem failure_handling_witness:
  "(\<exists>w2. optimizeRoute envP ''req-1'' 7 dto0 ''user-1'' world0 = (Inl (ProviderError ''unreachable''), w2) \<and>
         (\<forall>q \<in> set (requests w2). req_id q = ''req-1'' \<longrightarrow>
             req_status q = FAILED \<and> req_completedAt q = Some 7) \<and>
         roomPushes w2 = roomPushes processing1 @
            [\<lparr>push_room = ''route:req-1'', push_event = ''route_optimization_failed'',
              push_status = ''FAILED''\<rparr>]) \<and>
   optimizeRoute envPF ''req-1'' 7 dto0 ''user-1'' world0
     = (Inl (PersistenceError ''connection lost''), processing1)"
proof -
  have c: "requestCreateFault envP = None" "requestCreateFault envPF = None"
    "failedUpdateFault envP = None"
    "failedUpdateFault envPF = Some (PersistenceError ''connection lost'')"
    by (simp_all add: envPF_def envP_def env0_def)
  show ?thesis
    using failure_handling [OF unusedId_world0 c(1) try_envP]
          failure_handling [OF unusedId_world0 c(2) try_envPF] c(3,4)
    by auto
qed

text \<open>
  The failing input of claim C4 evaluated: the provider raises, the update to \<open>FAILED\<close>
  throws, and the caller receives the persistence error, not the provider error; the
  request stays \<open>PROCESSING\<close> and no failure is pushed.
\<close>

lemma failed_update_error_replaces_original:
  "fst (optimizeRoute_try envPF ''req-1'' 7 dto0 ''user-1'' world0) = Inl (ProviderError ''unreachable'') \<and>
   optimizeRoute envPF ''req-1'' 7 dto0 ''user-1'' world0
     = (Inl (PersistenceError ''connection lost''), processing1) \<and>
   map req_status (requests processing1) = [PROCESSING] \<and>
   map push_event (roomPushes processing1) = [''route_optimization_requested'']"
proof -
  have f: "failedUpdateFault envPF = Some (PersistenceError ''connection lost'')"
    by (simp add: envPF_def)
  show ?thesis
    by (simp add: try_envPF optimizeRoute_def f) (simp add: processing1_def request1_def)
qed

text \<open>
  The same unprotected update masks a failed creation of the request: no record exists,
  so the update to \<open>FAILED\<close> fails with its own error, which is what the caller gets in
  place of the error of the creation.
\<close>

lemma failed_create_masked:
  assumes "unusedId requestId w" and "requestCreateFault env = Some e"
    and "failedUpdateFault env = None"
  shows "optimizeRoute env requestId now dto userId w
           = (Inl (PersistenceError ''record not found''), w)"
  using assms
  by (simp add: optimizeRoute_def optimizeRoute_try_def requestCreate_def requestUpdate_def
      unusedId_def stored_def)

text \<open>
  The service and the sequencer themselves accept an empty stop list: the request is
  stored, sequenced to an empty route and completed.
\<close>

lemma service_accepts_empty_stop_list:
  "\<exists>response w'. optimizeRoute env0 ''req-1'' 0 (dto0\<lparr>dto_stops := []\<rparr>) ''user-1'' world0
      = (Inr response, w') \<and> map req_status (requests w') = [COMPLETED] \<and>
        sum_waypoints (resp_optimizedRoute response) = [] \<and> length (optimizedRoutes w') = 1"
  by (simp add: optimizeRoute_def optimizeRoute_try_def requestCreate_def requestUpdate_def
        routeCreate_def env0_def world0_def dto0_def GoogleMapsService_optimizeRoute_def apiKey_def
        getMockOptimizedRoute_def publishEvent_def broadcastRouteOptimizationRequested_def
        broadcastRouteOptimized_def broadcast_def Let_def)

text \<open>
  Claim C7. A submission whose stop list is empty is rejected with \<open>ValidationError\<close> by
  the validation pipe of the controller, before the service runs: the state is unchanged,
  so no request record is created and no event or room push is sent.
\<close>

theorem empty_stop_list_rejected:
  "controller_optimizeRoute optimizeRouteSchema env requestId now (body\<lparr>dto_stops := []\<rparr>) user w
     = (Inl ValidationError, w)"
  by (simp add: controller_optimizeRoute_def optimizeRouteSchema_def)

section \<open>Properties of the gateway\<close>

lemma extractToken_absent:
  "hs_cookie hs = None \<Longrightarrow> hs_authToken hs = None \<Longrightarrow> hs_authorization hs = None
   \<Longrightarrow> extractToken hs = None"
  by (simp add: extractToken_def cookieToken_def truthy_def)

text \<open>
  Claim C10. A connection with no token in the cookie, the handshake auth field and the
  Authorization header, and a connection whose token fails verification (or meets an
  unconfigured public key), is disconnected; disconnecting changes neither the registry
  nor any room, and binds no identity. A connection whose token verifies is registered,
  bound to the payload and joined to the room of its user id, and these are the only
  connections that are not disconnected.
\<close>

theorem handleConnection_authenticated_only:
  fixes client :: Client and g :: Gateway and publicKey issuer :: string
    and verify :: "string \<Rightarrow> string \<Rightarrow> string \<Rightarrow> CustomJWTPayload option"
  defines "cid \<equiv> client_id client"
  defines "g' \<equiv> handleConnection publicKey issuer verify client g"
  defines "token \<equiv> extractToken (client_handshake client)"
  shows "(hs_cookie (client_handshake client) = None \<and> hs_authToken (client_handshake client) = None \<and>
          hs_authorization (client_handshake client) = None \<longrightarrow> g' = disconnect cid g) \<and>
         (\<not> truthy token \<or> publicKey = [] \<or> verify (the token) publicKey issuer = None
            \<longrightarrow> g' = disconnect cid g) \<and>
         connectedClients (disconnect cid g) = connectedClients g \<and>
         rooms (disconnect cid g) = rooms g \<and>
         clientData (disconnect cid g) = clientData g \<and>
         disconnected (disconnect cid g) = disconnected g @ [cid] \<and>
         (\<forall>payload. truthy token \<and> publicKey \<noteq> [] \<and> verify (the token) publicKey issuer = Some payload
            \<longrightarrow> cid \<in> set (connectedClients g') \<and>
                rooms g' = rooms g @ [(cid, ''user:'' @ jwt_userId payload)] \<and>
                clientData g' cid = Some payload \<and>
                disconnected g' = disconnected g) \<and>
         (g' \<noteq> disconnect cid g \<longrightarrow>
            (\<exists>payload. truthy token \<and> verify (the token) publicKey issuer = Some payload))"
  unfolding cid_def g'_def token_def
  by (auto simp: handleConnection_def Let_def disconnect_def extractToken_absent truthy_def
           split: option.splits)

theorem handleConnection_authenticated_only_witness:
  "handleConnection ''PEM'' ''yatms-user-service-dev'' verify0 \<lparr>client_id = ''s1'', client_handshake = noToken\<rparr> gateway0
     = disconnect ''s1'' gateway0 \<and>
   handleConnection ''PEM'' ''yatms-user-service-dev'' verify0
      \<lparr>client_id = ''s2'', client_handshake = noToken\<lparr>hs_authorization := Some ''Bearer bad''\<rparr>\<rparr> gateway0
     = disconnect ''s2'' gateway0 \<and>
   rooms (handleConnection ''PEM'' ''yatms-user-service-dev'' verify0
      \<lparr>client_id = ''s3'', client_handshake = noToken\<lparr>hs_cookie := Some ''theme=dark; access_token=good''\<rparr>\<rparr> gateway0)
     = [(''s3'', ''user:u1'')] \<and>
   ''s3'' \<in> set (connectedClients (handleConnection ''PEM'' ''yatms-user-service-dev'' verify0
      \<lparr>client_id = ''s3'', client_handshake = noToken\<lparr>hs_cookie := Some ''theme=dark; access_token=good''\<rparr>\<rparr> gateway0))"
proof -
  have t2: "extractToken (noToken\<lparr>hs_authorization := Some ''Bearer bad''\<rparr>) = Some ''bad''"
    by (simp add: extractToken_def cookieToken_def truthy_def noToken_def)
  have t3: "extractToken (noToken\<lparr>hs_cookie := Some ''theme=dark; access_token=good''\<rparr>) = Some ''good''"
    by (simp add: extractToken_def cookieToken_def truthy_def noToken_def startsWith_def trim_def
        isWhitespace_def)
  have v2: "verify0 ''bad'' ''PEM'' ''yatms-user-service-dev'' = None"
    by (simp add: verify0_def)
  have v3: "verify0 ''good'' ''PEM'' ''yatms-user-service-dev''
      = Some \<lparr>jwt_userId = ''u1'', jwt_email = ''u1@example.org'', jwt_roles = [''driver'']\<rparr>"
    by (simp add: verify0_def)
  show ?thesis
    using handleConnection_authenticated_only
            [of "\<lparr>client_id = ''s1'', client_handshake = noToken\<rparr>" "''PEM''" "''yatms-user-service-dev''" verify0 gateway0]
          handleConnection_authenticated_only
            [of "\<lparr>client_id = ''s2'', client_handshake = noToken\<lparr>hs_authorization := Some ''Bearer bad''\<rparr>\<rparr>"
                "''PEM''" "''yatms-user-service-dev''" verify0 gateway0]
          handleConnection_authenticated_only
            [of "\<lparr>client_id = ''s3'', client_handshake = noToken\<lparr>hs_cookie := Some ''theme=dark; access_token=good''\<rparr>\<rparr>"
                "''PEM''" "''yatms-user-service-dev''" verify0 gateway0]
          t2 t3 v2 v3
    by (simp add: noToken_def gateway0_def truthy_def)
qed

section \<open>Properties of the fallback sequencer\<close>

text \<open>The haversine term lies between 0 and 1.\<close>

lemma haversine_term_bounds:
  fixes p1 p2 y :: real
  defines "a \<equiv> sin ((p2 - p1) / 2) * sin ((p2 - p1) / 2) + cos p1 * cos p2 * sin y * sin y"
  shows "0 \<le> a" and "a \<le> 1"
proof -
  define h where "h = sin y * sin y"
  define A0 where "A0 = (1 - cos (p2 - p1)) / 2"
  define A1 where "A1 = (1 + cos (p1 + p2)) / 2"
  have h: "0 \<le> h" "h \<le> 1"
    using abs_sin_le_one [of y] by (simp_all add: h_def abs_le_square_iff [symmetric] power2_eq_square [symmetric] abs_square_le_1)
  have s: "sin ((p2 - p1) / 2) * sin ((p2 - p1) / 2) = A0"
  proof -
    have e: "2 * ((p2 - p1) / 2) = p2 - p1" by simp
    have "cos (p2 - p1) = 1 - 2 * (sin ((p2 - p1) / 2))\<^sup>2"
      using cos_double_sin [of "(p2 - p1) / 2"] unfolding e .
    then show ?thesis by (simp add: A0_def power2_eq_square)
  qed
  have A0: "0 \<le> A0" "A0 \<le> 1"
    unfolding A0_def using cos_le_one [of "p2 - p1"] cos_ge_minus_one [of "p2 - p1"]
    by - argo+
  have A1: "0 \<le> A1" "A1 \<le> 1"
    unfolding A1_def using cos_le_one [of "p1 + p2"] cos_ge_minus_one [of "p1 + p2"]
    by - argo+
  have "a = A0 + cos p1 * cos p2 * h"
    by (simp add: a_def s h_def mult.assoc)
  also have "\<dots> = (1 - h) * A0 + h * A1"
    by (simp add: A0_def A1_def cos_add cos_diff field_simps)
  finally have a: "a = (1 - h) * A0 + h * A1" .
  show "0 \<le> a" unfolding a using h A0 A1 by simp
  have "(1 - h) * A0 + h * A1 \<le> (1 - h) * 1 + h * 1"
    using h A0 A1 by (intro add_mono mult_left_mono) simp_all
  then show "a \<le> 1" unfolding a by simp
qed

lemma Math_atan2_nonneg: "0 \<le> y \<Longrightarrow> 0 \<le> x \<Longrightarrow> 0 \<le> Math_atan2 y x"
  by (simp add: Math_atan2_def)

lemma calculateHaversineDistance_nonneg: "0 \<le> calculateHaversineDistance lat1 lon1 lat2 lon2"
proof -
  have d: "toRadians (lat2 - lat1) = toRadians lat2 - toRadians lat1"
    by (simp add: toRadians_def left_diff_distrib)
  note b = haversine_term_bounds [of "toRadians lat2" "toRadians lat1" "toRadians (lon2 - lon1) / 2"]
  show ?thesis
    unfolding calculateHaversineDistance_def Let_def d
    using b by (intro mult_nonneg_nonneg Math_atan2_nonneg) (simp_all add: mult.assoc)
qed

lemma stopDistance_nonneg: "0 \<le> stopDistance s t"
  by (simp add: stopDistance_def calculateHaversineDistance_nonneg)

lemma Math_round_nonneg: "0 \<le> x \<Longrightarrow> 0 \<le> Math_round x"
  by (simp add: Math_round_def)

lemma nearestFirst_unique:
  "nearestFirst c rs k \<Longrightarrow> nearestFirst c rs k' \<Longrightarrow> k = k'"
  unfolding nearestFirst_def
  by (metis linorder_neqE_nat not_less)

lemma scanned_first: "scanned c rs (Suc 0) (nearestStep c rs 0 (0, None))"
  by (simp add: scanned_def nearestStep_def)

lemma scanned_step:
  assumes "scanned c rs m st" and "0 < m"
  shows "scanned c rs (Suc m) (nearestStep c rs m st)"
proof (cases "stopDistance c (rs ! m) < stopDistance c (rs ! fst st)")
  case True
  then have "nearestStep c rs m st = (m, Some (stopDistance c (rs ! m)))"
    using assms by (simp add: nearestStep_def scanned_def)
  moreover have "\<forall>j < Suc m. stopDistance c (rs ! m) \<le> stopDistance c (rs ! j)"
    using assms True by (auto simp: scanned_def less_Suc_eq)
  moreover have "\<forall>j < m. stopDistance c (rs ! m) < stopDistance c (rs ! j)"
    using assms True by (auto simp: scanned_def)
  ultimately show ?thesis by (simp add: scanned_def)
next
  case False
  then have "nearestStep c rs m st = st"
    using assms by (simp add: nearestStep_def scanned_def)
  then show ?thesis using assms False by (auto simp: scanned_def less_Suc_eq)
qed

lemma scanned_fold:
  "0 < m \<Longrightarrow> scanned c rs m (fold (nearestStep c rs) [0..<m] (0, None))"
proof (induction m)
  case 0
  then show ?case by simp
next
  case (Suc m)
  show ?case
  proof (cases "m = 0")
    case True
    then show ?thesis using scanned_first by simp
  next
    case False
    then show ?thesis using Suc.IH scanned_step by simp
  qed
qed

lemma nearestStopIndex_nearestFirst:
  "rs \<noteq> [] \<Longrightarrow> nearestFirst c rs (nearestStopIndex c rs)"
  using scanned_fold [of "length rs" c rs]
  by (simp add: nearestFirst_def nearestStopIndex_def scanned_def)

lemma mset_splice1:
  "k < length xs \<Longrightarrow> add_mset (xs ! k) (mset (splice1 k xs)) = mset xs"
proof -
  assume "k < length xs"
  then have "xs = take k xs @ xs ! k # drop (Suc k) xs" by (rule id_take_nth_drop)
  then have "mset xs = mset (take k xs @ xs ! k # drop (Suc k) xs)" by simp
  then show ?thesis by (simp add: splice1_def)
qed

lemma nearestNeighbourLoop_mset:
  "mset (nearestNeighbourLoop c rs os) = mset os + mset rs"
proof (induction c rs os rule: nearestNeighbourLoop.induct)
  case (1 c rs os)
  show ?case
  proof (cases "rs = []")
    case True
    then show ?thesis by (simp add: nearestNeighbourLoop.simps)
  next
    case False
    let ?k = "nearestStopIndex c rs"
    have k: "?k < length rs" using False by (rule nearestStopIndex_less)
    have "mset (nearestNeighbourLoop c rs os) =
          mset (nearestNeighbourLoop (rs ! ?k) (splice1 ?k rs) (os @ [rs ! ?k]))"
      using False by (subst nearestNeighbourLoop.simps) (simp add: Let_def)
    also have "\<dots> = mset (os @ [rs ! ?k]) + mset (splice1 ?k rs)"
      using "1.IH" [OF False refl refl] .
    also have "\<dots> = mset os + mset rs"
      using mset_splice1 [OF k] by simp
    finally show ?thesis .
  qed
qed

lemma nearestNeighbourLoop_greedy:
  "\<exists>order. nearestNeighbourLoop c rs os = os @ order \<and> greedyOrder c rs order"
proof (induction c rs os rule: nearestNeighbourLoop.induct)
  case (1 c rs os)
  show ?case
  proof (cases "rs = []")
    case True
    then show ?thesis by (auto simp: nearestNeighbourLoop.simps intro: greedyOrder.finished)
  next
    case False
    let ?k = "nearestStopIndex c rs"
    have nf: "nearestFirst c rs ?k" using False by (rule nearestStopIndex_nearestFirst)
    have e: "nearestNeighbourLoop c rs os =
          nearestNeighbourLoop (rs ! ?k) (splice1 ?k rs) (os @ [rs ! ?k])"
      using False by (subst nearestNeighbourLoop.simps) (simp add: Let_def)
    from "1.IH" [OF False refl refl] obtain order where
      o: "nearestNeighbourLoop (rs ! ?k) (splice1 ?k rs) (os @ [rs ! ?k]) = (os @ [rs ! ?k]) @ order"
      and g: "greedyOrder (rs ! ?k) (splice1 ?k rs) order" by blast
    have "greedyOrder c rs (rs ! ?k # order)"
      using nf g unfolding splice1_def by (rule greedyOrder.visit)
    then show ?thesis using e o by auto
  qed
qed

lemma optimizeStopOrder_mset: "mset (optimizeStopOrder stops) = mset stops"
proof (cases "length stops \<le> 2")
  case True
  then show ?thesis by (simp add: optimizeStopOrder_def)
next
  case False
  then have "stops \<noteq> []" by auto
  then have "stops = hd stops # tl stops" by simp
  then have "mset stops = add_mset (hd stops) (mset (tl stops))" by (metis mset.simps(2))
  then show ?thesis using False by (simp add: optimizeStopOrder_def nearestNeighbourLoop_mset)
qed

lemma optimizeStopOrder_length: "length (optimizeStopOrder stops) = length stops"
  using optimizeStopOrder_mset [of stops] by (metis size_mset)

lemma optimizeStopOrder_greedy:
  "3 \<le> length stops \<Longrightarrow>
   \<exists>order. optimizeStopOrder stops = hd stops # order \<and> greedyOrder (hd stops) (tl stops) order"
  using nearestNeighbourLoop_greedy [of "hd stops" "tl stops" "[hd stops]"]
  by (simp add: optimizeStopOrder_def)

lemma mockStep_leg:
  "int i < int (length os) - 1 \<Longrightarrow>
   mockStep now os i (d, t, wps) =
     (d + stopDistance (os ! i) (os ! (i + 1)),
      t + Math_round (stopDistance (os ! i) (os ! (i + 1)) / 1000 * 2) + 5,
      wps @ [\<lparr>wp_latitude = latitude (os ! i), wp_longitude = longitude (os ! i),
               wp_address = address (os ! i),
               estimatedArrival =
                 now + (t + Math_round (stopDistance (os ! i) (os ! (i + 1)) / 1000 * 2) + 5) * 60000\<rparr>])"
  by (simp add: mockStep_def Let_def)

lemma mockStep_last:
  "\<not> int i < int (length os) - 1 \<Longrightarrow>
   mockStep now os i (d, t, wps) =
     (d, t, wps @ [\<lparr>wp_latitude = latitude (os ! i), wp_longitude = longitude (os ! i),
                     wp_address = address (os ! i), estimatedArrival = now + t * 60000\<rparr>])"
  by (simp add: mockStep_def Let_def)

lemma waypointStop_made [simp]:
  "waypointStop \<lparr>wp_latitude = latitude s, wp_longitude = longitude s, wp_address = address s,
                  estimatedArrival = e\<rparr> = s"
  by (simp add: waypointStop_def)

text \<open>Invariant of the loop of the fallback sequencer after the indices below \<open>k\<close>.\<close>

lemma mock_fold_invariant:
  "k \<le> length os \<Longrightarrow>
   (case fold (mockStep now os) [0..<k] (0, 0, []) of
      (d, t, wps) \<Rightarrow> 0 \<le> d \<and> 0 \<le> t \<and> map waypointStop wps = take k os)"
proof (induction k)
  case 0
  then show ?case by simp
next
  case (Suc k)
  obtain d t wps where f: "fold (mockStep now os) [0..<k] (0, 0, []) = (d, t, wps)"
    by (cases "fold (mockStep now os) [0..<k] (0, 0, [])") auto
  from Suc f have i: "0 \<le> d" "0 \<le> t" "map waypointStop wps = take k os" by auto
  from Suc.prems have k: "k < length os" by simp
  show ?case
  proof (cases "int k < int (length os) - 1")
    case True
    show ?thesis
      using i k stopDistance_nonneg [of "os ! k" "os ! (k + 1)"]
        Math_round_nonneg [of "stopDistance (os ! k) (os ! (k + 1)) / 1000 * 2"]
      by (simp add: f mockStep_leg [OF True] take_Suc_conv_app_nth)
  next
    case False
    show ?thesis
      using i k by (simp add: f mockStep_last [OF False] take_Suc_conv_app_nth)
  qed
qed

lemma getMockOptimizedRoute_order:
  "map waypointStop (waypoints (getMockOptimizedRoute now stops)) = optimizeStopOrder stops"
proof (cases "length stops < 2")
  case True
  then show ?thesis
    by (simp add: getMockOptimizedRoute_def optimizeStopOrder_def o_def map_idI)
next
  case False
  let ?os = "optimizeStopOrder stops"
  obtain d t wps where f: "fold (mockStep now ?os) [0..<length ?os] (0, 0, []) = (d, t, wps)"
    by (cases "fold (mockStep now ?os) [0..<length ?os] (0, 0, [])") auto
  from mock_fold_invariant [of "length ?os" ?os now] f have "map waypointStop wps = ?os" by simp
  then show ?thesis using False by (simp add: getMockOptimizedRoute_def Let_def f)
qed

lemma getMockOptimizedRoute_nonneg:
  "0 \<le> totalDistance (getMockOptimizedRoute now stops) \<and>
   0 \<le> totalDuration (getMockOptimizedRoute now stops)"
proof (cases "length stops < 2")
  case True
  then show ?thesis by (simp add: getMockOptimizedRoute_def)
next
  case False
  let ?os = "optimizeStopOrder stops"
  obtain d t wps where f: "fold (mockStep now ?os) [0..<length ?os] (0, 0, []) = (d, t, wps)"
    by (cases "fold (mockStep now ?os) [0..<length ?os] (0, 0, [])") auto
  from mock_fold_invariant [of "length ?os" ?os now] f have "0 \<le> d" "0 \<le> t" by simp_all
  then show ?thesis using False
    by (simp add: getMockOptimizedRoute_def Let_def f Math_round_nonneg)
qed

text \<open>
  In exact arithmetic, for every stop list (in particular every non-empty one) the
  waypoints of the fallback sequencer, read as stops, are a permutation of the input
  stops: same multiset, same length; total distance and total duration are non-negative.
  For three or more stops the order starts at the first input stop and continues by the
  greedy rule: at each step the unvisited stop with minimum haversine distance to the
  current stop, the first such stop in input order on ties.

  This is the behaviour the loops of the source are written for. It is not a property
  of the running code on every input: on a list with an antipodal leg whose haversine
  distance is NaN in doubles, the estimated arrival is an invalid date and
  \<^verbatim>\<open>getMockOptimizedRoute\<close> throws instead of returning a route.
\<close>

lemma fallback_sequencer_permutation:
  fixes stops :: "Stop list" and now :: real
  defines "route \<equiv> getMockOptimizedRoute now stops"
  defines "order \<equiv> map waypointStop (waypoints route)"
  shows "mset order = mset stops \<and> length order = length stops \<and>
         0 \<le> totalDistance route \<and> 0 \<le> totalDuration route \<and>
         (3 \<le> length stops \<longrightarrow>
            (\<exists>rest. order = hd stops # rest \<and> greedyOrder (hd stops) (tl stops) rest))"
  unfolding order_def route_def getMockOptimizedRoute_order
  using getMockOptimizedRoute_nonneg [of now stops] optimizeStopOrder_greedy [of stops]
  by (simp add: optimizeStopOrder_mset optimizeStopOrder_length)

lemma originalStep_eq:
  "originalStep os i (d, t) =
     (d + stopDistance (os ! i) (os ! (i + 1)),
      t + Math_round (stopDistance (os ! i) (os ! (i + 1)) / 1000 * 2)
        + (if int i < int (length os) - 2 then 5 else 0))"
  by (simp add: originalStep_def Let_def)

text \<open>
  The two iterations side by side on the same list: after the legs below \<open>k\<close> the distances
  agree, and the sequencer has counted one more dwell than the baseline for every leg.
\<close>

lemma legs_side_by_side:
  "k \<le> length os - 1 \<Longrightarrow>
   (case fold (mockStep now os) [0..<k] (0, 0, []) of
      (d, t, wps) \<Rightarrow>
        (case fold (originalStep os) [0..<k] (0, 0) of
           (d', t') \<Rightarrow> d = d' \<and> t = t' + (if k = length os - 1 \<and> 0 < k then 5 else 0)))"
proof (induction k)
  case 0
  then show ?case by simp
next
  case (Suc k)
  obtain d t wps where f: "fold (mockStep now os) [0..<k] (0, 0, []) = (d, t, wps)"
    by (cases "fold (mockStep now os) [0..<k] (0, 0, [])") auto
  obtain d' t' where g: "fold (originalStep os) [0..<k] (0, 0) = (d', t')"
    by (cases "fold (originalStep os) [0..<k] (0, 0)") auto
  from Suc.prems have k: "int k < int (length os) - 1" by auto
  from Suc.prems have "k \<noteq> length os - 1" by auto
  with Suc f g have i: "d = d'" "t = t'" by auto
  show ?case
    using i Suc.prems by (auto simp: f g mockStep_leg [OF k] originalStep_eq)
qed

lemma durations_differ:
  assumes "2 \<le> length os"
  shows "(case fold (mockStep now os) [0..<length os] (0, 0, []) of
      (d, t, wps) \<Rightarrow>
        (case fold (originalStep os) [0..<length os - 1] (0, 0) of
           (d', t') \<Rightarrow> d = d' \<and> t = t' + 5))"
proof -
  define m where "m = length os - 1"
  have n: "length os = Suc m" and m: "0 < m" using assms by (simp_all add: m_def)
  obtain d t wps where f: "fold (mockStep now os) [0..<m] (0, 0, []) = (d, t, wps)"
    by (cases "fold (mockStep now os) [0..<m] (0, 0, [])") auto
  obtain d' t' where g: "fold (originalStep os) [0..<m] (0, 0) = (d', t')"
    by (cases "fold (originalStep os) [0..<m] (0, 0)") auto
  from legs_side_by_side [of m os now] f g m
  have i: "d = d'" "t = t' + 5" by (auto simp: n)
  have l: "\<not> int m < int (length os) - 1" by (simp add: n)
  have "fold (mockStep now os) [0..<length os] (0, 0, []) = mockStep now os m (d, t, wps)"
    by (simp add: n f)
  then show ?thesis using i g by (simp add: n mockStep_last [OF l])
qed

lemma unchanged_order_totals:
  assumes "2 \<le> length stops" and "optimizeStopOrder stops = stops"
  shows "totalDuration (getMockOptimizedRoute now stops) =
           orig_totalDuration (calculateOriginalRouteMetrics stops) + 300 \<and>
         totalDistance (getMockOptimizedRoute now stops) =
           orig_totalDistance (calculateOriginalRouteMetrics stops)"
proof -
  obtain d t wps where f: "fold (mockStep now stops) [0..<length stops] (0, 0, []) = (d, t, wps)"
    by (cases "fold (mockStep now stops) [0..<length stops] (0, 0, [])") auto
  obtain d' t' where g: "fold (originalStep stops) [0..<length stops - 1] (0, 0) = (d', t')"
    by (cases "fold (originalStep stops) [0..<length stops - 1] (0, 0)") auto
  from durations_differ [OF assms(1), of now] f g have e: "d = d'" "t = t' + 5" by auto
  have "getMockOptimizedRoute now stops =
          \<lparr>totalDistance = Math_round d, totalDuration = t * 60, waypoints = wps, polyline = []\<rparr>"
    using assms f by (simp add: getMockOptimizedRoute_def Let_def)
  moreover have "calculateOriginalRouteMetrics stops =
          \<lparr>orig_totalDistance = Math_round d', orig_totalDuration = t' * 60\<rparr>"
    using assms(1) g by (simp add: calculateOriginalRouteMetrics_def Let_def)
  ultimately show ?thesis using e by simp
qed

text \<open>
  Claim C3 fails on the code. On every list of two or more stops that the sequencer
  leaves in input order, the total distances of the baseline and of the fallback route
  agree, but the fallback duration is the baseline duration plus 300 seconds: the
  sequencer adds the dwell on every leg, the baseline on every leg but the last.
\<close>

theorem fallback_counts_one_more_dwell:
  assumes "2 \<le> length stops" and "optimizeStopOrder stops = stops"
  shows "totalDuration (getMockOptimizedRoute now stops) =
           orig_totalDuration (calculateOriginalRouteMetrics stops) + 300 \<and>
         totalDistance (getMockOptimizedRoute now stops) =
           orig_totalDistance (calculateOriginalRouteMetrics stops)"
  using assms by (rule unchanged_order_totals)

theorem fallback_counts_one_more_dwell_witness:
  "2 \<le> length [exampleA, exampleB] \<and> optimizeStopOrder [exampleA, exampleB] = [exampleA, exampleB] \<and>
   totalDuration (getMockOptimizedRoute 0 [exampleA, exampleB]) =
     orig_totalDuration (calculateOriginalRouteMetrics [exampleA, exampleB]) + 300"
proof -
  have o: "optimizeStopOrder [exampleA, exampleB] = [exampleA, exampleB]"
    by (simp add: optimizeStopOrder_def)
  show ?thesis
    using fallback_counts_one_more_dwell [of "[exampleA, exampleB]" 0] o by simp
qed

lemma fold_mockStep_hd:
  "wps \<noteq> [] \<Longrightarrow> hd (snd (snd (fold (mockStep now os) ks (d, t, wps)))) = hd wps"
proof (induction ks arbitrary: d t wps)
  case Nil
  then show ?case by simp
next
  case (Cons k ks)
  obtain d1 t1 w1 where s: "mockStep now os k (d, t, wps) = (d1, t1, wps @ [w1])"
    by (cases "int k < int (length os) - 1") (simp_all add: mockStep_leg mockStep_last)
  show ?case using Cons.IH [of "wps @ [w1]" d1 t1] Cons.prems by (simp add: s)
qed

text \<open>
  Claim C6 fails on the code. For two or more stops the estimated arrival of the first
  waypoint is not the clock reading: it already contains the first leg and its dwell, so
  it is at least five minutes later.
\<close>

theorem fallback_first_eta_after_now:
  assumes "2 \<le> length stops"
  shows "now + 300000 \<le> estimatedArrival (hd (waypoints (getMockOptimizedRoute now stops)))"
proof -
  let ?os = "optimizeStopOrder stops"
  have n: "2 \<le> length ?os" using assms by (simp add: optimizeStopOrder_length)
  then have l: "int 0 < int (length ?os) - 1" by simp
  have u: "[0..<length ?os] = 0 # [Suc 0..<length ?os]"
    using n by (intro upt_conv_Cons) auto
  let ?m = "Math_round (stopDistance (?os ! 0) (?os ! (0 + 1)) / 1000 * 2)"
  let ?w = "\<lparr>wp_latitude = latitude (?os ! 0), wp_longitude = longitude (?os ! 0),
             wp_address = address (?os ! 0), estimatedArrival = now + (0 + ?m + 5) * 60000\<rparr>"
  have "hd (snd (snd (fold (mockStep now ?os) [0..<length ?os] (0, 0, [])))) = ?w"
    unfolding u using fold_mockStep_hd [of "[?w]" now ?os "[Suc 0..<length ?os]"]
    by (simp add: mockStep_leg [OF l])
  moreover have "0 \<le> ?m" by (intro Math_round_nonneg) (simp add: stopDistance_nonneg)
  ultimately show ?thesis using assms
    by (simp add: getMockOptimizedRoute_def Let_def split_beta)
qed

theorem fallback_first_eta_after_now_witness:
  "2 \<le> length [exampleA, exampleB] \<and>
   1000 + 300000 \<le> estimatedArrival (hd (waypoints (getMockOptimizedRoute 1000 [exampleA, exampleB])))"
  using fallback_first_eta_after_now [of "[exampleA, exampleB]" 1000] by simp

section \<open>The worked example\<close>

text \<open>Values of the sine coefficients and Taylor bounds from the Maclaurin bound.\<close>

lemma sin_coeff_values:
  "sin_coeff (Suc 0) = 1" "sin_coeff 2 = 0" "sin_coeff 3 = - 1 / 6" "sin_coeff 4 = 0"
  "sin_coeff 5 = 1 / 120" "sin_coeff 6 = 0"
  by (simp_all add: sin_coeff_def fact_numeral)

lemma sum_below_7:
  fixes f :: "nat \<Rightarrow> real"
  shows "(\<Sum>m<7. f m) = f 0 + f 1 + f 2 + f 3 + f 4 + f 5 + f 6"
proof -
  have "{..<7::nat} = {0, 1, 2, 3, 4, 5, 6}" by auto
  then show ?thesis by simp
qed

lemma sum_below_3:
  fixes f :: "nat \<Rightarrow> real"
  shows "(\<Sum>m<3. f m) = f 0 + f 1 + f 2"
proof -
  have "{..<3::nat} = {0, 1, 2}" by auto
  then show ?thesis by simp
qed

lemma sin_poly5:
  fixes x :: real
  assumes "0 \<le> x"
  shows "x - x^3 / 6 + x^5 / 120 - x^7 / 5040 \<le> sin x"
    and "sin x \<le> x - x^3 / 6 + x^5 / 120 + x^7 / 5040"
proof -
  have s: "(\<Sum>m<7. sin_coeff m * x ^ m) = x - x^3 / 6 + x^5 / 120"
    by (simp add: sum_below_7 sin_coeff_values)
  have "\<bar>sin x - (\<Sum>m<7. sin_coeff m * x ^ m)\<bar> \<le> inverse (fact 7) * \<bar>x\<bar> ^ 7"
    by (rule Maclaurin_sin_bound)
  moreover have "(fact 7 :: real) = 5040" by (simp add: fact_numeral)
  then have "inverse (fact 7) * \<bar>x\<bar> ^ 7 = x^7 / 5040"
    using assms by (simp add: field_simps)
  ultimately have "\<bar>sin x - (x - x^3 / 6 + x^5 / 120)\<bar> \<le> x^7 / 5040"
    by (simp only: s)
  then show "x - x^3 / 6 + x^5 / 120 - x^7 / 5040 \<le> sin x"
    and "sin x \<le> x - x^3 / 6 + x^5 / 120 + x^7 / 5040"
    by (simp_all only: abs_le_iff) linarith+
qed

lemma sin_cubic_lower:
  fixes x :: real
  assumes "0 \<le> x"
  shows "x - x^3 / 6 \<le> sin x"
proof -
  have s: "(\<Sum>m<3. sin_coeff m * x ^ m) = x"
    by (simp add: sum_below_3 sin_coeff_values)
  have "\<bar>sin x - (\<Sum>m<3. sin_coeff m * x ^ m)\<bar> \<le> inverse (fact 3) * \<bar>x\<bar> ^ 3"
    by (rule Maclaurin_sin_bound)
  moreover have "(fact 3 :: real) = 6" by (simp add: fact_numeral)
  then have "inverse (fact 3) * \<bar>x\<bar> ^ 3 = x^3 / 6"
    using assms by (simp add: field_simps)
  ultimately have "\<bar>sin x - x\<bar> \<le> x^3 / 6" by (simp only: s)
  then show ?thesis by (simp only: abs_le_iff) linarith
qed


lemma pi_lower: "3.1415 < pi"
proof -
  have "sin (3.1415 / 6 :: real) \<le> 3.1415 / 6 - (3.1415 / 6)^3 / 6 + (3.1415 / 6)^5 / 120 + (3.1415 / 6)^7 / 5040"
    by (rule sin_poly5) simp
  also have "\<dots> < 1 / 2" by (simp add: power_divide)
  finally have "sin (3.1415 / 6 :: real) < sin (pi / 6)" by (simp add: sin_30)
  moreover have "- (pi / 2) \<le> 3.1415 / 6" "3.1415 / 6 \<le> pi / 2" using pi_ge_two by simp_all
  moreover have "- (pi / 2) \<le> pi / 6" "pi / 6 \<le> pi / 2" by simp_all
  ultimately have "3.1415 / 6 < pi / 6"
    using sin_mono_less_eq [of "3.1415 / 6" "pi / 6"] by blast
  then show ?thesis by simp
qed

lemma pi_upper: "pi < 3.1416"
proof -
  have "1 / 2 < 3.1416 / 6 - (3.1416 / 6 :: real)^3 / 6 + (3.1416 / 6)^5 / 120 - (3.1416 / 6)^7 / 5040"
    by (simp add: power_divide)
  also have "\<dots> \<le> sin (3.1416 / 6)" by (rule sin_poly5) simp
  finally have "sin (pi / 6) < sin (3.1416 / 6 :: real)" by (simp add: sin_30)
  moreover have "- (pi / 2) \<le> 3.1416 / 6" "3.1416 / 6 \<le> pi / 2" using pi_ge_two by simp_all
  moreover have "- (pi / 2) \<le> pi / 6" "pi / 6 \<le> pi / 2" by simp_all
  ultimately have "pi / 6 < 3.1416 / 6"
    using sin_mono_less_eq [of "pi / 6" "3.1416 / 6"] by blast
  then show ?thesis by simp
qed

lemma sin_mono_unit:
  fixes x y :: real
  assumes "0 \<le> x" "x \<le> y" "y \<le> 1"
  shows "sin x \<le> sin y"
proof -
  have "1 \<le> pi / 2" using pi_ge_two by simp
  then have "- (pi / 2) \<le> x" "x \<le> pi / 2" "- (pi / 2) \<le> y" "y \<le> pi / 2"
    using assms by linarith+
  then show ?thesis using sin_mono_le_eq [of x y] assms(2) by blast
qed

lemma cos_bounds_from_half:
  fixes h L U sl sh :: real
  assumes "0 \<le> L" "L \<le> h" "h \<le> U" "U \<le> 1"
    and "0 \<le> sl" "sl \<le> L - L^3 / 6 + L^5 / 120 - L^7 / 5040"
    and "U - U^3 / 6 + U^5 / 120 + U^7 / 5040 \<le> sh"
  shows "1 - 2 * sh\<^sup>2 \<le> cos (2 * h)" and "cos (2 * h) \<le> 1 - 2 * sl\<^sup>2"
proof -
  have "sl \<le> sin L" using sin_poly5(1) [of L] assms by linarith
  also have "sin L \<le> sin h" using assms by (intro sin_mono_unit) linarith+
  finally have lo: "sl \<le> sin h" .
  have "sin h \<le> sin U" using assms by (intro sin_mono_unit) linarith+
  also have "sin U \<le> sh" using sin_poly5(2) [of U] assms by linarith
  finally have hi: "sin h \<le> sh" .
  have "sl\<^sup>2 \<le> (sin h)\<^sup>2" using lo assms(5) by (intro power_mono) simp_all
  moreover have "(sin h)\<^sup>2 \<le> sh\<^sup>2" using hi lo assms(5) by (intro power_mono) simp_all
  ultimately show "1 - 2 * sh\<^sup>2 \<le> cos (2 * h)" and "cos (2 * h) \<le> 1 - 2 * sl\<^sup>2"
    unfolding cos_double_sin by linarith+
qed

lemma cube_le_self:
  fixes x :: real
  assumes "0 \<le> x" "x \<le> 1"
  shows "0 \<le> x - x^3 / 6"
proof -
  have "x * x\<^sup>2 \<le> x" using assms by (intro mult_left_le power_le_one)
  then have "x^3 \<le> x" by (simp add: power3_eq_cube power2_eq_square)
  then show ?thesis using assms by linarith
qed

lemma small_angle_sin:
  fixes x xl xh :: real
  assumes "0 \<le> xl" "xl \<le> x" "x \<le> xh" "xh \<le> 1"
  shows "(xl - xl^3 / 6)\<^sup>2 \<le> sin x * sin x" and "sin x * sin x \<le> xh\<^sup>2"
proof -
  have n: "0 \<le> xl - xl^3 / 6" using assms by (intro cube_le_self) linarith+
  have "xl - xl^3 / 6 \<le> sin xl" using assms by (intro sin_cubic_lower)
  also have "sin xl \<le> sin x" using assms by (intro sin_mono_unit) linarith+
  finally have lo: "xl - xl^3 / 6 \<le> sin x" .
  have hi: "sin x \<le> xh" using sin_x_le_x [of x] assms by linarith
  have "(xl - xl^3 / 6)\<^sup>2 \<le> (sin x)\<^sup>2" using lo n by (intro power_mono) simp_all
  then show "(xl - xl^3 / 6)\<^sup>2 \<le> sin x * sin x" by (simp add: power2_eq_square)
  have "(sin x)\<^sup>2 \<le> xh\<^sup>2" using hi lo n by (intro power_mono) linarith+
  then show "sin x * sin x \<le> xh\<^sup>2" by (simp add: power2_eq_square)
qed

text \<open>The central angle from the haversine term, between two given bounds.\<close>

lemma central_angle_bounds:
  fixes a alo ahi Bl Bh :: real
  assumes a: "alo \<le> a" "a \<le> ahi" "0 \<le> alo" "ahi < 1"
    and Bl: "0 \<le> Bl" "Bl\<^sup>2 \<le> alo"
    and Bh: "0 \<le> Bh" "Bh \<le> 1" "ahi \<le> (Bh - Bh^3 / 6)\<^sup>2"
  shows "Bl \<le> Math_atan2 (sqrt a) (sqrt (1 - a))"
    and "Math_atan2 (sqrt a) (sqrt (1 - a)) \<le> Bh"
proof -
  have a0: "0 \<le> a" and a1: "0 < 1 - a" using a by linarith+
  define u where "u = sqrt a / sqrt (1 - a)"
  define z where "z = arctan u"
  have p: "0 < sqrt (1 - a)" using a1 by simp
  have zdef: "Math_atan2 (sqrt a) (sqrt (1 - a)) = z"
    using p by (simp add: Math_atan2_def z_def u_def)
  have u0: "0 \<le> u" using a0 p by (simp add: u_def)
  have z0: "0 \<le> z" using u0 by (simp add: z_def)
  have z2: "z < pi / 2" unfolding z_def by (rule arctan_ubound)
  have "u\<^sup>2 = a / (1 - a)"
    using a0 a1 by (simp add: u_def power_divide)
  then have "1 + u\<^sup>2 = 1 / (1 - a)" using a1 by (simp add: field_simps)
  then have "sqrt (1 + u\<^sup>2) = 1 / sqrt (1 - a)" by (simp add: real_sqrt_divide)
  then have sz: "sin z = sqrt a"
    using p by (simp add: z_def sin_arctan u_def)
  have "Bl \<le> sqrt alo" using Bl by (intro real_le_rsqrt)
  also have "\<dots> \<le> sqrt a" using a by simp
  also have "\<dots> \<le> z" using sin_x_le_x [OF z0] sz by simp
  finally show "Bl \<le> Math_atan2 (sqrt a) (sqrt (1 - a))" by (simp add: zdef)
  have "z \<le> Bh"
  proof (rule ccontr)
    assume "\<not> z \<le> Bh"
    then have lt: "Bh < z" by simp
    have "1 \<le> pi / 2" using pi_ge_two by simp
    then have "- (pi / 2) \<le> Bh" "Bh \<le> pi / 2" "- (pi / 2) \<le> z" "z \<le> pi / 2"
      using Bh z0 z2 by linarith+
    then have "sin Bh < sin z" using sin_mono_less_eq [of Bh z] lt by blast
    moreover have "Bh - Bh^3 / 6 \<le> sin Bh" using Bh by (intro sin_cubic_lower)
    ultimately have "Bh - Bh^3 / 6 < sqrt a" using sz by linarith
    moreover have "sqrt a \<le> sqrt ahi" using a by simp
    moreover have "sqrt ahi \<le> Bh - Bh^3 / 6"
      using Bh by (intro real_le_lsqrt cube_le_self)
    ultimately show False by linarith
  qed
  then show "Math_atan2 (sqrt a) (sqrt (1 - a)) \<le> Bh" by (simp add: zdef)
qed

lemma example_cos_A:
  shows "0.75798 \<le> cos (toRadians 40.7128)" and "cos (toRadians 40.7128) \<le> 0.75801"
proof -
  define h :: real where "h = 40.7128 * pi / 360"
  have t: "toRadians 40.7128 = 2 * h" by (simp add: toRadians_def h_def)
  have l: "0.355275 \<le> h" using pi_lower by (simp add: h_def)
  have u: "h \<le> 0.355288" using pi_upper by (simp add: h_def)
  have p1: "(0.3478482::real) \<le> 0.355275 - 0.355275^3 / 6 + 0.355275^5 / 120 - 0.355275^7 / 5040"
    by (simp add: power_divide)
  have p2: "(0.355288::real) - 0.355288^3 / 6 + 0.355288^5 / 120 + 0.355288^7 / 5040 \<le> 0.3478607"
    by (simp add: power_divide)
  note b = cos_bounds_from_half [where h = h and L = "0.355275" and U = "0.355288"
               and sl = "0.3478482" and sh = "0.3478607", OF _ l u _ _ p1 p2]
  have "(0.75798::real) \<le> 1 - 2 * 0.3478607\<^sup>2" by (simp add: power_divide)
  then show "0.75798 \<le> cos (toRadians 40.7128)" using b(1) unfolding t by simp
  have "1 - 2 * 0.3478482\<^sup>2 \<le> (0.75801::real)" by (simp add: power_divide)
  then show "cos (toRadians 40.7128) \<le> 0.75801" using b(2) unfolding t by simp
qed

lemma example_cos_B:
  shows "0.75746 \<le> cos (toRadians 40.7589)" and "cos (toRadians 40.7589) \<le> 0.75748"
proof -
  define h :: real where "h = 40.7589 * pi / 360"
  have t: "toRadians 40.7589 = 2 * h" by (simp add: toRadians_def h_def)
  have l: "0.355678 \<le> h" using pi_lower by (simp add: h_def)
  have u: "h \<le> 0.35569" using pi_upper by (simp add: h_def)
  have p1: "(0.348226::real) \<le> 0.355678 - 0.355678^3 / 6 + 0.355678^5 / 120 - 0.355678^7 / 5040"
    by (simp add: power_divide)
  have p2: "(0.35569::real) - 0.35569^3 / 6 + 0.35569^5 / 120 + 0.35569^7 / 5040 \<le> 0.3482376"
    by (simp add: power_divide)
  note b = cos_bounds_from_half [where h = h and L = "0.355678" and U = "0.35569"
               and sl = "0.348226" and sh = "0.3482376", OF _ l u _ _ p1 p2]
  have "(0.75746::real) \<le> 1 - 2 * 0.3482376\<^sup>2" by (simp add: power_divide)
  then show "0.75746 \<le> cos (toRadians 40.7589)" using b(1) unfolding t by simp
  have "1 - 2 * 0.348226\<^sup>2 \<le> (0.75748::real)" by (simp add: power_divide)
  then show "cos (toRadians 40.7589) \<le> 0.75748" using b(2) unfolding t by simp
qed

lemma example_distance:
  shows "5419.6 \<le> stopDistance exampleA exampleB" and "stopDistance exampleA exampleB \<le> 5420.4"
proof -
  define x :: real where "x = toRadians (40.7589 - 40.7128) / 2"
  define y :: real where "y = toRadians (- 73.9851 - (- 74.0060)) / 2"
  define C :: real where "C = cos (toRadians 40.7128) * cos (toRadians 40.7589)"
  define a :: real where "a = sin x * sin x + C * sin y * sin y"
  define alo :: real where
    "alo = (0.00040228 - 0.00040228^3 / 6)\<^sup>2 + 0.75798 * 0.75746 * (0.00018238 - 0.00018238^3 / 6)\<^sup>2"
  define ahi :: real where "ahi = 0.00040231\<^sup>2 + 0.75801 * 0.75748 * 0.00018239\<^sup>2"
  have d: "stopDistance exampleA exampleB = 6371000 * (2 * Math_atan2 (sqrt a) (sqrt (1 - a)))"
    by (simp add: stopDistance_def calculateHaversineDistance_def Let_def exampleA_def exampleB_def
        a_def x_def y_def C_def)
  have x: "0.00040228 \<le> x" "x \<le> 0.00040231"
    using pi_lower pi_upper by (simp_all add: x_def toRadians_def)
  have y: "0.00018238 \<le> y" "y \<le> 0.00018239"
    using pi_lower pi_upper by (simp_all add: y_def toRadians_def)
  note sx = small_angle_sin [where x = x and xl = "0.00040228" and xh = "0.00040231", OF _ x]
  note sy = small_angle_sin [where x = y and xl = "0.00018238" and xh = "0.00018239", OF _ y]
  have cA: "0 \<le> cos (toRadians 40.7128)" by (rule order_trans [OF _ example_cos_A(1)]) simp
  have cB: "0 \<le> cos (toRadians 40.7589)" by (rule order_trans [OF _ example_cos_B(1)]) simp
  have Cl: "0.75798 * 0.75746 \<le> C"
    unfolding C_def by (rule mult_mono [OF example_cos_A(1) example_cos_B(1) cA]) simp
  have Ch: "C \<le> 0.75801 * 0.75748"
    unfolding C_def by (rule mult_mono [OF example_cos_A(2) example_cos_B(2) _ cB]) simp
  have C0: "0 \<le> C" using Cl by simp
  have "0.75798 * 0.75746 * (0.00018238 - 0.00018238^3 / 6)\<^sup>2 \<le> C * (sin y * sin y)"
    using Cl sy(1) by (intro mult_mono) simp_all
  then have lo: "alo \<le> a" using sx(1) by (simp add: alo_def a_def mult.assoc)
  have "C * (sin y * sin y) \<le> 0.75801 * 0.75748 * 0.00018239\<^sup>2"
    using Ch sy(2) C0 by (intro mult_mono) simp_all
  then have hi: "a \<le> ahi" using sx(2) by (simp add: ahi_def a_def mult.assoc)
  have n1: "0 \<le> alo" by (simp add: alo_def)
  have n2: "ahi < 1" by (simp add: ahi_def power_divide)
  have b1: "(5419.6 / (2 * 6371000))\<^sup>2 \<le> alo"
    by (simp add: alo_def power_divide)
  have b2: "ahi \<le> (5420.4 / (2 * 6371000) - (5420.4 / (2 * 6371000))^3 / 6)\<^sup>2"
    by (simp add: ahi_def power_divide)
  note z = central_angle_bounds [where a = a and alo = alo and ahi = ahi
              and Bl = "5419.6 / (2 * 6371000)" and Bh = "5420.4 / (2 * 6371000)",
              OF lo hi n1 n2 _ b1 _ _ b2]
  show "5419.6 \<le> stopDistance exampleA exampleB" using z(1) unfolding d by simp
  show "stopDistance exampleA exampleB \<le> 5420.4" using z(2) unfolding d by simp
qed

lemma Math_round_eq:
  "real_of_int k - 1 / 2 \<le> x \<Longrightarrow> x < real_of_int k + 1 / 2 \<Longrightarrow> Math_round x = real_of_int k"
proof -
  assume "real_of_int k - 1 / 2 \<le> x" and "x < real_of_int k + 1 / 2"
  then have "\<lfloor>x + 1 / 2\<rfloor> = k" by (intro floor_unique) linarith+
  then show ?thesis by (simp add: Math_round_def)
qed

lemma example_rounded_distance: "Math_round (stopDistance exampleA exampleB) = 5420"
  using Math_round_eq [of 5420 "stopDistance exampleA exampleB"] example_distance by simp

lemma example_travel_minutes: "Math_round (stopDistance exampleA exampleB / 500) = 11"
  using Math_round_eq [of 11 "stopDistance exampleA exampleB / 500"] example_distance by simp

lemma upt_two: "[0..<2] = [0, Suc 0]"
  by (simp add: upt_rec numeral_2_eq_2)

lemma example_mock_route:
  "getMockOptimizedRoute now [exampleA, exampleB] =
     \<lparr>totalDistance = 5420, totalDuration = 960,
      waypoints =
        [\<lparr>wp_latitude = latitude exampleA, wp_longitude = longitude exampleA,
          wp_address = address exampleA, estimatedArrival = now + 960000\<rparr>,
         \<lparr>wp_latitude = latitude exampleB, wp_longitude = longitude exampleB,
          wp_address = address exampleB, estimatedArrival = now + 960000\<rparr>],
      polyline = []\<rparr>"
proof -
  have l0: "int 0 < int (length [exampleA, exampleB]) - 1" by simp
  have l1: "\<not> int (Suc 0) < int (length [exampleA, exampleB]) - 1" by simp
  have o: "optimizeStopOrder [exampleA, exampleB] = [exampleA, exampleB]"
    by (simp add: optimizeStopOrder_def)
  show ?thesis
    by (simp add: getMockOptimizedRoute_def o Let_def upt_two mockStep_leg [OF l0]
        mockStep_last [OF l1] example_rounded_distance example_travel_minutes)
qed

lemma example_baseline:
  "calculateOriginalRouteMetrics [exampleA, exampleB] =
     \<lparr>orig_totalDistance = 5420, orig_totalDuration = 660\<rparr>"
  by (simp add: calculateOriginalRouteMetrics_def Let_def originalStep_eq
      example_rounded_distance example_travel_minutes)

text \<open>
  Claim C9, as amended. For the two stops A = (40.7128, -74.0060) and
  B = (40.7589, -73.9851), with no provider configured, the fallback route keeps the
  order A, B; its total distance is 5420 metres, so within 50 metres of 5420; and the
  travel time of its single leg, the rounded kilometres times two, is 11 minutes.
\<close>

theorem example_route:
  "GoogleMapsService_optimizeRoute env0 now [exampleA, exampleB] preferences
     = Inr (getMockOptimizedRoute now [exampleA, exampleB]) \<and>
   map waypointStop (waypoints (getMockOptimizedRoute now [exampleA, exampleB]))
     = [exampleA, exampleB] \<and>
   totalDistance (getMockOptimizedRoute now [exampleA, exampleB]) = 5420 \<and>
   \<bar>totalDistance (getMockOptimizedRoute now [exampleA, exampleB]) - 5420\<bar> \<le> 50 \<and>
   Math_round (stopDistance exampleA exampleB / 1000 * 2) = 11"
  by (simp add: example_mock_route example_travel_minutes GoogleMapsService_optimizeRoute_def
      apiKey_def env0_def)

text \<open>
  Claim C9, as stated, fails: the total distance of the example is not within 50 metres
  of 5750.
\<close>

theorem example_distance_not_near_5750:
  "\<not> \<bar>totalDistance (getMockOptimizedRoute 0 [exampleA, exampleB]) - 5750\<bar> \<le> 50"
  by (simp add: example_mock_route)

text \<open>
  On the example the fallback duration is 960 seconds, the baseline duration 660 seconds.
\<close>

lemma example_durations:
  "totalDuration (getMockOptimizedRoute now [exampleA, exampleB]) = 960 \<and>
   orig_totalDuration (calculateOriginalRouteMetrics [exampleA, exampleB]) = 660"
  by (simp add: example_mock_route example_baseline)

text \<open>
  Three stops: C is nearer to A than B is, so the sequencer visits A, C, B.
\<close>

lemma example_distance_AC: "stopDistance exampleA exampleC \<le> 3000"
proof -
  define x :: real where "x = (toRadians 40.7306 - toRadians 40.7128) / 2"
  define y :: real where "y = toRadians (- 73.9866 - (- 74.0060)) / 2"
  define C :: real where "C = cos (toRadians 40.7128) * cos (toRadians 40.7306)"
  define a :: real where "a = sin x * sin x + C * sin y * sin y"
  have t: "toRadians (40.7306 - 40.7128) / 2 = x"
    by (simp add: toRadians_def x_def)
  have d: "stopDistance exampleA exampleC = 6371000 * (2 * Math_atan2 (sqrt a) (sqrt (1 - a)))"
    unfolding stopDistance_def calculateHaversineDistance_def Let_def exampleA_def exampleC_def
    by (simp only: Stop.simps t) (simp add: a_def y_def C_def)
  have x: "0.00015 \<le> x" "x \<le> 0.00016"
    using pi_lower pi_upper by (simp_all add: x_def toRadians_def)
  have y: "0.00016 \<le> y" "y \<le> 0.00017"
    using pi_lower pi_upper by (simp_all add: y_def toRadians_def)
  note sx = small_angle_sin [where x = x and xl = "0.00015" and xh = "0.00016", OF _ x]
  note sy = small_angle_sin [where x = y and xl = "0.00016" and xh = "0.00017", OF _ y]
  have "\<bar>C\<bar> \<le> 1 * 1"
    unfolding C_def abs_mult by (intro mult_mono) simp_all
  then have C1: "C \<le> 1" by simp
  have s0: "0 \<le> sin y * sin y" by simp
  have "C * (sin y * sin y) \<le> 1 * (sin y * sin y)" using C1 s0 by (intro mult_right_mono)
  also have "\<dots> \<le> 0.00017\<^sup>2" using sy(2) by simp
  finally have hi: "a \<le> 0.00016\<^sup>2 + 0.00017\<^sup>2" using sx(2) by (simp add: a_def mult.assoc)
  have lo: "0 \<le> a"
    using haversine_term_bounds(1) [of "toRadians 40.7306" "toRadians 40.7128" y]
    by (simp add: a_def x_def C_def mult.assoc)
  note z = central_angle_bounds(2) [where a = a and alo = 0 and ahi = "0.00016\<^sup>2 + 0.00017\<^sup>2"
              and Bl = 0 and Bh = "0.000235", OF lo hi]
  have "Math_atan2 (sqrt a) (sqrt (1 - a)) \<le> 0.000235"
    by (rule z) (simp_all add: power_divide)
  then show ?thesis unfolding d by simp
qed

lemma example_nearest_from_A: "nearestStopIndex exampleA [exampleB, exampleC] = Suc 0"
proof -
  have "stopDistance exampleA exampleC < stopDistance exampleA exampleB"
    using example_distance_AC example_distance(1) by simp
  then show ?thesis
    by (simp add: nearestStopIndex_def upt_two nearestStep_def)
qed

lemma example_nearest_last: "nearestStopIndex c [s] = 0"
  by (simp add: nearestStopIndex_def nearestStep_def)

lemma example_three_stops:
  "optimizeStopOrder [exampleA, exampleB, exampleC] = [exampleA, exampleC, exampleB]"
proof -
  have "nearestNeighbourLoop exampleA [exampleB, exampleC] [exampleA]
        = nearestNeighbourLoop exampleC [exampleB] [exampleA, exampleC]"
    by (subst nearestNeighbourLoop.simps) (simp add: example_nearest_from_A splice1_def)
  also have "\<dots> = nearestNeighbourLoop exampleB [] [exampleA, exampleC, exampleB]"
    by (subst nearestNeighbourLoop.simps) (simp add: example_nearest_last splice1_def)
  also have "\<dots> = [exampleA, exampleC, exampleB]"
    by (subst nearestNeighbourLoop.simps) simp
  finally show ?thesis by (simp add: optimizeStopOrder_def)
qed

lemma fallback_sequencer_permutation_witness:
  "3 \<le> length [exampleA, exampleB, exampleC] \<and>
   map waypointStop (waypoints (getMockOptimizedRoute 0 [exampleA, exampleB, exampleC]))
     = [exampleA, exampleC, exampleB] \<and>
   mset [exampleA, exampleC, exampleB] = mset [exampleA, exampleB, exampleC] \<and>
   greedyOrder exampleA [exampleB, exampleC] [exampleC, exampleB]"
  using fallback_sequencer_permutation [of 0 "[exampleA, exampleB, exampleC]"]
  by (simp add: getMockOptimizedRoute_order example_three_stops)

section \<open>Further facts about the fallback sequencer and the baseline\<close>

text \<open>
  For fewer than two stops the sequencer returns zero distance and duration, and every
  estimated arrival is the clock reading.
\<close>

lemma fallback_fewer_than_two:
  assumes "length stops < 2"
  shows "totalDistance (getMockOptimizedRoute now stops) = 0 \<and>
         totalDuration (getMockOptimizedRoute now stops) = 0 \<and>
         (\<forall>w \<in> set (waypoints (getMockOptimizedRoute now stops)). estimatedArrival w = now)"
  using assms by (auto simp: getMockOptimizedRoute_def)

text \<open>
  When the sequencer leaves two or more stops in input order, every saving is reported as
  zero: the distances agree, and the extra dwell makes the time difference negative,
  which is clamped.
\<close>

lemma Math_round_nonpos: "x \<le> 0 \<Longrightarrow> Math_round x \<le> 0"
proof -
  assume "x \<le> 0"
  then have "x + 1 / 2 < real_of_int 0 + 1" by simp
  then have "\<lfloor>x + 1 / 2\<rfloor> \<le> 0" by (simp only: floor_le_iff)
  then show ?thesis by (simp add: Math_round_def)
qed

lemma Math_max_nonpos: "y \<le> 0 \<Longrightarrow> Math_max 0 y = 0"
  by (simp add: Math_max_def)

lemma clamped_zero: "x \<le> 0 \<Longrightarrow> 0 < c \<Longrightarrow> Math_max 0 (Math_round x / c) = 0"
  by (intro Math_max_nonpos divide_nonpos_pos Math_round_nonpos)

lemma clamped_zero1: "x \<le> 0 \<Longrightarrow> Math_max 0 (Math_round x) = 0"
  by (intro Math_max_nonpos Math_round_nonpos)

lemma unchanged_order_savings_zero:
  fixes stops :: "Stop list" and now :: real
  assumes "2 \<le> length stops" and "optimizeStopOrder stops = stops"
  defines "m \<equiv> calculateOptimizationMetrics (getMockOptimizedRoute now stops) stops"
  shows "timeSaved m = 0 \<and> distanceSaved m = 0 \<and> fuelSaved m = 0 \<and> co2Saved m = 0 \<and>
         costSaved m = 0 \<and> timeImprovement (optimizationEfficiency m) = 0 \<and>
         distanceImprovement (optimizationEfficiency m) = 0 \<and>
         fuelEfficiency (optimizationEfficiency m) = 0"
proof -
  define b where "b = calculateOriginalRouteMetrics stops"
  define r where "r = getMockOptimizedRoute now stops"
  have e: "totalDuration r = orig_totalDuration b + 300" "totalDistance r = orig_totalDistance b"
    using unchanged_order_totals [OF assms(1,2), of now] by (simp_all add: r_def b_def)
  have r300: "Math_round (- 300) \<le> 0" by (rule Math_round_nonpos) simp
  have "timeSaved m = Math_max 0 (Math_round (- 300))"
    by (simp add: m_def calculateOptimizationMetrics_def Let_def r_def [symmetric] b_def [symmetric] e)
  then have f1: "timeSaved m = 0" by (simp add: clamped_zero1)
  have "distanceSaved m = Math_max 0 (Math_round 0 / 1000)"
    by (simp add: m_def calculateOptimizationMetrics_def Let_def r_def [symmetric] b_def [symmetric] e)
  then have f2: "distanceSaved m = 0" by (simp add: clamped_zero)
  have "fuelSaved m = Math_max 0 (Math_round 0 / 1000)"
    by (simp add: m_def calculateOptimizationMetrics_def Let_def r_def [symmetric] b_def [symmetric] e)
  then have f3: "fuelSaved m = 0" by (simp add: clamped_zero)
  have "co2Saved m = Math_max 0 (Math_round 0 / 1000)"
    by (simp add: m_def calculateOptimizationMetrics_def Let_def r_def [symmetric] b_def [symmetric] e)
  then have f4: "co2Saved m = 0" by (simp add: clamped_zero)
  have "costSaved m = Math_max 0 (Math_round (Math_round (- 300) * 25 / 36) / 100)"
    by (simp add: m_def calculateOptimizationMetrics_def Let_def r_def [symmetric] b_def [symmetric] e)
  moreover have "Math_round (- 300) * 25 / 36 \<le> 0"
    using r300 by (simp add: field_simps)
  ultimately have f5: "costSaved m = 0" by (simp only: clamped_zero)
  have "timeImprovement (optimizationEfficiency m) =
          Math_max 0 (Math_round (if 0 < orig_totalDuration b
                                  then (- 300 / orig_totalDuration b) * 100 else 0))"
    by (simp add: m_def calculateOptimizationMetrics_def Let_def r_def [symmetric] b_def [symmetric] e)
  moreover have "(if 0 < orig_totalDuration b then (- 300 / orig_totalDuration b) * 100 else 0) \<le> 0"
    by (simp add: field_simps)
  ultimately have f6: "timeImprovement (optimizationEfficiency m) = 0" by (simp only: clamped_zero1)
  have "distanceImprovement (optimizationEfficiency m) = Math_max 0 (Math_round 0)"
    and "fuelEfficiency (optimizationEfficiency m) = Math_max 0 (Math_round 0)"
    by (simp_all add: m_def calculateOptimizationMetrics_def Let_def r_def [symmetric] b_def [symmetric] e)
  then have f7: "distanceImprovement (optimizationEfficiency m) = 0"
    and f8: "fuelEfficiency (optimizationEfficiency m) = 0" by (simp_all add: clamped_zero1)
  show ?thesis using f1 f2 f3 f4 f5 f6 f7 f8 by simp
qed

section \<open>The antipodal pair\<close>

text \<open>
  In exact arithmetic the haversine term of the antipodal points \<open>(87.5, 0)\<close> and
  \<open>(-87.5, -180)\<close> is exactly 1, the upper end of its range, and the distance is half the
  circumference of the sphere. The term sits on the boundary of the domain of the
  square root of \<open>1 - a\<close>, so a rounding error of one unit in the last place, which is
  what the doubles of the source produce on this pair, makes the square root, the
  distance and everything summed from it NaN.
\<close>

lemma antipodal_term:
  "sin (toRadians (- 87.5 - 87.5) / 2) * sin (toRadians (- 87.5 - 87.5) / 2) +
   cos (toRadians 87.5) * cos (toRadians (- 87.5)) *
   sin (toRadians (- 180 - 0) / 2) * sin (toRadians (- 180 - 0) / 2) = 1"
proof -
  have a: "toRadians (- 87.5 - 87.5) / 2 = - toRadians 87.5" by (simp add: toRadians_def)
  have b: "toRadians (- 180 - 0) / 2 = - (pi / 2)" by (simp add: toRadians_def)
  have c: "toRadians (- 87.5) = - toRadians 87.5" by (simp add: toRadians_def)
  show ?thesis unfolding a b c
    using sin_cos_squared_add [of "toRadians 87.5"] by (simp add: power2_eq_square)
qed

lemma antipodal_distance:
  "calculateHaversineDistance 87.5 0 (- 87.5) (- 180) = 6371000 * pi"
  unfolding calculateHaversineDistance_def Let_def antipodal_term
  by (simp add: Math_atan2_def)

end
